theory Spec2Isabelle
  imports Complex_Main "HOL-Library.Word" "HOL-Library.Monad_Syntax"
begin

unbundle bit_operations_syntax

section \<open>JSON values and the Python operations the server applies to them\<close>

text \<open>
  Every inbound message is what \<^verbatim>\<open>websocket.receive_json()\<close> returns and every
  outbound frame is a dict handed to \<^verbatim>\<open>json.dumps\<close>, so both are JSON values.
  A dict is an association list read with \<open>map_of\<close>.

  A Python expression that may raise is an \<open>option\<close>: \<open>None\<close> is "an
  exception is raised". The handlers of the source catch \<^verbatim>\<open>Exception\<close> as a whole and
  never look at its class, so the class is not recorded.
\<close>

datatype json =
    JNull
  | JBool bool
  | JNum rat
  | JStr string
  | JArr "json list"
  | JObj "(string \<times> json) list"

text \<open>\<^verbatim>\<open>d[k]\<close> for a string key: KeyError on a dict without the key, TypeError on
  anything that is not a dict.\<close>

fun py_getitem :: "json \<Rightarrow> string \<Rightarrow> json option" where
  "py_getitem (JObj kvs) k = map_of kvs k"
| "py_getitem _ k = None"

text \<open>\<^verbatim>\<open>d.get(k, default)\<close>: only a dict has the method (AttributeError otherwise);
  \<^verbatim>\<open>d.get(k)\<close> is \<^verbatim>\<open>d.get(k, None)\<close>.\<close>

fun py_get_default :: "json \<Rightarrow> string \<Rightarrow> json \<Rightarrow> json option" where
  "py_get_default (JObj kvs) k d = Some (case map_of kvs k of None \<Rightarrow> d | Some v \<Rightarrow> v)"
| "py_get_default _ k d = None"

definition py_get :: "json \<Rightarrow> string \<Rightarrow> json option" where
  "py_get x k = py_get_default x k JNull"

text \<open>\<^verbatim>\<open>x[-1]\<close>: the last element of a list or the last character of a string,
  IndexError when empty; KeyError on a dict (its keys are strings), TypeError otherwise.\<close>

fun py_last :: "json \<Rightarrow> json option" where
  "py_last (JArr xs) = (if xs = [] then None else Some (last xs))"
| "py_last (JStr s) = (if s = [] then None else Some (JStr [last s]))"
| "py_last _ = None"

text \<open>\<^verbatim>\<open>x[:-1]\<close>: a fresh list (or string) without the last element; the empty one
  stays empty.\<close>

fun py_butlast :: "json \<Rightarrow> json option" where
  "py_butlast (JArr xs) = Some (JArr (butlast xs))"
| "py_butlast (JStr s) = Some (JStr (butlast s))"
| "py_butlast _ = None"

text \<open>\<^verbatim>\<open>x.append(v)\<close> and \<^verbatim>\<open>x + [v]\<close>: both need a list.\<close>

fun py_append :: "json \<Rightarrow> json \<Rightarrow> json option" where
  "py_append (JArr xs) v = Some (JArr (xs @ [v]))"
| "py_append _ v = None"

text \<open>Truth value testing, as \<^verbatim>\<open>not x\<close>, \<^verbatim>\<open>x and y\<close> and \<^verbatim>\<open>if x\<close> apply it.\<close>

fun truthy :: "json \<Rightarrow> bool" where
  "truthy JNull = False"
| "truthy (JBool b) = b"
| "truthy (JNum n) = (n \<noteq> 0)"
| "truthy (JStr s) = (s \<noteq> [])"
| "truthy (JArr xs) = (xs \<noteq> [])"
| "truthy (JObj kvs) = (kvs \<noteq> [])"

section \<open>Message classifier (audio\_utils.py)\<close>

text \<open>
  \<^verbatim>\<open>
  def is_sync_message(data):
      return data["type"] == "history.update" and (
          not data["inputs"] or data["inputs"][-1].get("role") != "user")
  \<close>
  \<^verbatim>\<open>and\<close> and \<^verbatim>\<open>or\<close> short-circuit: \<^verbatim>\<open>data["inputs"]\<close> is read only for a
  history.update message, and its last element only when it is truthy.
\<close>

definition is_sync_message :: "json \<Rightarrow> bool option" where
  "is_sync_message data = do {
     t \<leftarrow> py_getitem data ''type'';
     if t \<noteq> JStr ''history.update'' then Some False
     else do {
       inputs \<leftarrow> py_getitem data ''inputs'';
       if \<not> truthy inputs then Some True
       else do {
         l \<leftarrow> py_last inputs;
         r \<leftarrow> py_get l ''role'';
         Some (r \<noteq> JStr ''user'')
       }
     }
   }"

text \<open>
  \<^verbatim>\<open>
  def is_new_text_message(data):
      return data["type"] == "history.update" and (
          data["inputs"] and data["inputs"][-1].get("role") == "user")
  \<close>
  \<^verbatim>\<open>x and y\<close> returns \<^verbatim>\<open>x\<close> itself when \<^verbatim>\<open>x\<close> is falsy: on empty inputs the
  function returns that empty value, not \<^verbatim>\<open>False\<close>. The caller tests its truth value.
\<close>

definition is_new_text_message :: "json \<Rightarrow> json option" where
  "is_new_text_message data = do {
     t \<leftarrow> py_getitem data ''type'';
     if t \<noteq> JStr ''history.update'' then Some (JBool False)
     else do {
       inputs \<leftarrow> py_getitem data ''inputs'';
       if \<not> truthy inputs then Some inputs
       else do {
         l \<leftarrow> py_last inputs;
         r \<leftarrow> py_get l ''role'';
         Some (JBool (r = JStr ''user''))
       }
     }
   }"

definition is_new_audio_chunk :: "json \<Rightarrow> bool option" where
  "is_new_audio_chunk data = do {
     t \<leftarrow> py_getitem data ''type'';
     Some (t = JStr ''input_audio_buffer.append'')
   }"

definition is_audio_complete :: "json \<Rightarrow> bool option" where
  "is_audio_complete data = do {
     t \<leftarrow> py_getitem data ''type'';
     Some (t = JStr ''input_audio_buffer.commit'')
   }"

section \<open>Session state (class WebsocketHelper)\<close>

record agent =
  name :: string

definition job_tracking_agent :: agent where
  "job_tracking_agent = \<lparr>name = ''Job Application Tracker''\<rparr>"

text \<open>
  A buffered audio chunk is a one-dimensional numpy array, of dtype int16 or float32.
  The only float32 values the server makes are \<open>k / 32768\<close> for an int16 \<open>k\<close>: the
  conversion of an int16 to float32 and the division by a power of two are both exact
  in binary32, and afterwards the values are only stored and concatenated. They are
  therefore rationals here, with no rounding left out.
\<close>

type_synonym byte = "8 word"
type_synonym int16 = "16 word"

datatype ndarray = Int16 "int16 list" | Float32 "rat list"

text \<open>
  The fields of a WebsocketHelper. \<open>history\<close> is whatever Python object the attribute
  holds (a list in every well-formed session). \<open>audio_buffer\<close> is \<open>None\<close> while
  the attribute has not been set (the code tests \<^verbatim>\<open>hasattr(self, 'audio_buffer')\<close>).
  The last two fields record what the object did to the outside: \<open>sent\<close> lists the
  dicts given to \<^verbatim>\<open>websocket.send_text(json.dumps(...))\<close>, oldest first, and
  \<open>pipeline_runs\<close> the utterances given to \<^verbatim>\<open>VoicePipeline(...).run\<close>.
\<close>

record conn =
  history :: json
  latest_agent :: agent
  partial_response :: string
  audio_buffer :: "ndarray list option"
  sent :: "json list"
  pipeline_runs :: "ndarray list"

text \<open>\<^verbatim>\<open>WebsocketHelper(websocket, history, initial_agent)\<close>: \<^verbatim>\<open>history or []\<close>.\<close>

definition new_helper :: "json \<Rightarrow> agent \<Rightarrow> conn" where
  "new_helper h a =
     \<lparr>history = (if truthy h then h else JArr []), latest_agent = a,
      partial_response = [], audio_buffer = None, sent = [], pipeline_runs = []\<rparr>"

definition send_text :: "json \<Rightarrow> conn \<Rightarrow> conn" where
  "send_text frame s = s\<lparr>sent := sent s @ [frame]\<rparr>"

text \<open>
  A method either returns or raises; the fields it has assigned before raising stay
  assigned, so the state comes back in both cases.
\<close>

datatype status = Completed | Raised

text \<open>Sequencing of two statements: the second runs only if the first returned.\<close>

definition seq :: "(conn \<Rightarrow> conn \<times> status) \<Rightarrow> (conn \<Rightarrow> conn \<times> status) \<Rightarrow> conn \<Rightarrow> conn \<times> status" where
  "seq f g s = (case f s of (s1, Raised) \<Rightarrow> (s1, Raised) | (s1, Completed) \<Rightarrow> g s1)"

text \<open>
  \<^verbatim>\<open>
  def process_inputs(data, connection) -> str:
      connection.history = data["inputs"][:-1]
      return data["inputs"][-1]["content"]
  \<close>
  The assignment comes first: a last item without \<^verbatim>\<open>content\<close> raises KeyError with
  the history already replaced.
\<close>

definition process_inputs :: "json \<Rightarrow> conn \<Rightarrow> conn \<times> json option" where
  "process_inputs data connection =
     (case py_getitem data ''inputs'' \<bind> py_butlast of
        None \<Rightarrow> (connection, None)
      | Some h \<Rightarrow>
          (connection\<lparr>history := h\<rparr>,
           do { inputs \<leftarrow> py_getitem data ''inputs'';
                l \<leftarrow> py_last inputs;
                py_getitem l ''content'' }))"

section \<open>Outbound frames and the turn driver (audio\_utils.py)\<close>

definition user_item :: "json \<Rightarrow> json" where
  "user_item user_input =
     JObj [(''type'', JStr ''message''), (''role'', JStr ''user''), (''content'', user_input)]"

definition assistant_item :: "string \<Rightarrow> json" where
  "assistant_item text =
     JObj [(''type'', JStr ''message''), (''role'', JStr ''assistant''), (''content'', JStr text)]"

definition history_updated :: "string \<Rightarrow> json \<Rightarrow> agent \<Rightarrow> json" where
  "history_updated reason inputs a =
     JObj [(''type'', JStr ''history.updated''), (''reason'', JStr reason),
           (''inputs'', inputs), (''agent_name'', JStr (name a))]"

text \<open>
  \<^verbatim>\<open>show_user_input\<close>: append the user item to the history list (in place), send
  the \<^verbatim>\<open>user.input\<close> frame, return \<^verbatim>\<open>(self.history, self.latest_agent)\<close>.
\<close>

definition show_user_input :: "json \<Rightarrow> conn \<Rightarrow> conn \<times> (json \<times> agent) option" where
  "show_user_input user_input s =
     (case py_append (history s) (user_item user_input) of
        None \<Rightarrow> (s, None)
      | Some h \<Rightarrow>
          (let s1 = s\<lparr>history := h\<rparr>;
               s2 = send_text (history_updated ''user.input'' (history s1) (latest_agent s1)) s1
           in (s2, Some (history s2, latest_agent s2))))"

text \<open>
  \<^verbatim>\<open>
  async def stream_response(self, new_tokens: str, is_text: bool = False):
      if is_text:
          return
      self.partial_response += new_tokens
      await self.websocket.send_text(json.dumps({... "reason": "response.text.delta",
          "inputs": self.history + [{... "role": "assistant",
                                     "content": self.partial_response}], ...}))
  \<close>
\<close>

definition stream_response :: "string \<Rightarrow> bool \<Rightarrow> conn \<Rightarrow> conn \<times> status" where
  "stream_response new_tokens is_text s =
     (if is_text then (s, Completed)
      else
        (let s1 = s\<lparr>partial_response := partial_response s @ new_tokens\<rparr>
         in case py_append (history s1) (assistant_item (partial_response s1)) of
              None \<Rightarrow> (s1, Raised)
            | Some inputs \<Rightarrow>
                (send_text (history_updated ''response.text.delta'' inputs (latest_agent s1)) s1,
                 Completed)))"

text \<open>
  The events of \<^verbatim>\<open>output.stream_events()\<close>. A RunItemStreamEvent is represented by
  what the code reads of it, \<^verbatim>\<open>event.item.to_input_item()\<close>; a raw response event by
  whether its data is a ResponseTextDeltaEvent, and then its \<^verbatim>\<open>delta\<close>.
\<close>

datatype raw_data = ResponseTextDeltaEvent string | OtherResponseEvent

datatype event =
    RunItemStreamEvent json
  | RawResponsesStreamEvent raw_data
  | AgentUpdatedStreamEvent agent

fun is_new_output_item :: "event \<Rightarrow> bool" where
  "is_new_output_item (RunItemStreamEvent _) = True"
| "is_new_output_item _ = False"

fun is_text_output :: "event \<Rightarrow> bool" where
  "is_text_output (RawResponsesStreamEvent (ResponseTextDeltaEvent _)) = True"
| "is_text_output _ = False"

fun handle_new_item :: "event \<Rightarrow> conn \<Rightarrow> conn \<times> status" where
  "handle_new_item (RunItemStreamEvent item) s =
     (case py_append (history s) item of
        None \<Rightarrow> (s, Raised)
      | Some h \<Rightarrow>
          (let s1 = s\<lparr>history := h\<rparr>
           in (send_text (history_updated ''response.input_item'' (history s1) (latest_agent s1)) s1,
               Completed)))"
| "handle_new_item (RawResponsesStreamEvent (ResponseTextDeltaEvent delta)) s =
     stream_response delta False s"
| "handle_new_item _ s = (s, Completed)"

text \<open>
  What \<^verbatim>\<open>Runner.run_streamed(agent, history)\<close> hands back: the events its stream
  yields, whether the stream then raises instead of ending, and what
  \<^verbatim>\<open>output.last_agent\<close> and \<^verbatim>\<open>output.to_input_list()\<close> report once it has ended.
  The runner itself is the agents library's: it is a parameter of the model.
\<close>

record run_output =
  stream_events :: "event list"
  stream_raises :: bool
  last_agent :: agent
  to_input_list :: json

type_synonym runner = "agent \<Rightarrow> json \<Rightarrow> run_output"

text \<open>
  \<^verbatim>\<open>text_output_complete(output, is_done)\<close>: a sync frame (no reason) when not done;
  otherwise the finalization of the turn.
\<close>

definition text_output_complete :: "run_output \<Rightarrow> bool \<Rightarrow> conn \<Rightarrow> conn \<times> status" where
  "text_output_complete output is_done s =
     (if \<not> is_done then
        (send_text (JObj [(''type'', JStr ''history.updated''), (''inputs'', history s),
                          (''sync'', JBool True), (''agent_name'', JStr (name (latest_agent s)))]) s,
         Completed)
      else
        (let s1 = s\<lparr>partial_response := [], latest_agent := last_agent output,
                    history := to_input_list output\<rparr>
         in (send_text (JObj [(''type'', JStr ''history.updated''), (''inputs'', history s1),
                              (''reason'', JStr ''response.done''),
                              (''agent_name'', JStr (name (latest_agent s1)))]) s1,
             Completed)))"

text \<open>
  \<^verbatim>\<open>Workflow.run\<close> is an async generator: after handling a text event it yields the
  delta and is suspended until its consumer asks for the next one. The consumer's loop
  body is the parameter \<open>body\<close>; it runs between two events, on the same session.
  \<^verbatim>\<open>
  async for event in output.stream_events():
      await self.connection.handle_new_item(event)
      if is_text_output(event):
          yield event.data.delta
  \<close>
\<close>

fun event_loop :: "(string \<Rightarrow> conn \<Rightarrow> conn \<times> status) \<Rightarrow> event list \<Rightarrow> conn \<Rightarrow> conn \<times> status" where
  "event_loop body [] s = (s, Completed)"
| "event_loop body (e # es) s =
     seq (handle_new_item e)
       (seq (case e of RawResponsesStreamEvent (ResponseTextDeltaEvent delta) \<Rightarrow> body delta
                     | _ \<Rightarrow> (\<lambda>s. (s, Completed)))
            (event_loop body es)) s"

definition Workflow_run :: "runner \<Rightarrow> (string \<Rightarrow> conn \<Rightarrow> conn \<times> status) \<Rightarrow> json \<Rightarrow> conn \<Rightarrow> conn \<times> status" where
  "Workflow_run run_streamed body input_text s =
     (case show_user_input input_text s of
        (s1, None) \<Rightarrow> (s1, Raised)
      | (s1, Some (conversation_history, latest)) \<Rightarrow>
          (let output = run_streamed latest conversation_history
           in seq (event_loop body (stream_events output))
                (\<lambda>s2. if stream_raises output then (s2, Raised)
                       else text_output_complete output True s2) s1))"

section \<open>Audio chunks: base64, int16 PCM, normalisation\<close>

text \<open>
  The base64 codec is the standard library's. \<^verbatim>\<open>base64.b64decode(s)\<close> with its
  default \<^verbatim>\<open>validate=False\<close> refuses a string with a non-ASCII character, skips
  every character outside the alphabet, stops at the padding that completes a
  quantum, and raises \<^verbatim>\<open>binascii.Error\<close> when the data characters do not fill
  their last quantum. \<open>quad_pos\<close> is the position in the current quantum,
  \<open>leftchar\<close> the bits not yet written and \<open>pads\<close> the padding characters seen.
\<close>

definition b64_alphabet :: string where
  "b64_alphabet = ''ABCDEFGHIJKLMNOPQRSTUVWXYZabcdefghijklmnopqrstuvwxyz0123456789+/''"

fun index_of :: "'a \<Rightarrow> 'a list \<Rightarrow> nat option" where
  "index_of x [] = None"
| "index_of x (y # ys) = (if x = y then Some 0 else map_option Suc (index_of x ys))"

fun a2b_base64 :: "nat \<Rightarrow> nat \<Rightarrow> nat \<Rightarrow> string \<Rightarrow> byte list \<Rightarrow> byte list option" where
  "a2b_base64 quad_pos leftchar pads [] out = (if quad_pos \<noteq> 0 then None else Some out)"
| "a2b_base64 quad_pos leftchar pads (c # cs) out =
     (if c = CHR ''='' then
        (if 2 \<le> quad_pos \<and> 4 \<le> quad_pos + (pads + 1) then Some out
         else a2b_base64 quad_pos leftchar (if 2 \<le> quad_pos then pads + 1 else pads) cs out)
      else
        (case index_of c b64_alphabet of
           None \<Rightarrow> a2b_base64 quad_pos leftchar pads cs out
         | Some v \<Rightarrow>
             (if quad_pos = 0 then a2b_base64 1 v 0 cs out
              else if quad_pos = 1 then
                a2b_base64 2 (v mod 16) 0 cs (out @ [of_nat (leftchar * 4 + v div 16)])
              else if quad_pos = 2 then
                a2b_base64 3 (v mod 4) 0 cs (out @ [of_nat (leftchar * 16 + v div 4)])
              else a2b_base64 0 0 0 cs (out @ [of_nat (leftchar * 64 + v)]))))"

definition b64decode :: "string \<Rightarrow> byte list option" where
  "b64decode s =
     (if list_all (\<lambda>c. (of_char c :: nat) < 128) s then a2b_base64 0 0 0 s [] else None)"

definition b64_char :: "nat \<Rightarrow> char" where
  "b64_char n = b64_alphabet ! n"

fun b64encode :: "byte list \<Rightarrow> string" where
  "b64encode [] = []"
| "b64encode [a] =
     [b64_char (unat a div 4), b64_char (unat a mod 4 * 16), CHR ''='', CHR ''='']"
| "b64encode [a, b] =
     [b64_char (unat a div 4), b64_char (unat a mod 4 * 16 + unat b div 16),
      b64_char (unat b mod 16 * 4), CHR ''='']"
| "b64encode (a # b # c # rest) =
     [b64_char (unat a div 4), b64_char (unat a mod 4 * 16 + unat b div 16),
      b64_char (unat b mod 16 * 4 + unat c div 64), b64_char (unat c mod 64)] @ b64encode rest"

text \<open>
  \<^verbatim>\<open>np.frombuffer(decoded_bytes, dtype=np.int16)\<close>: two bytes per sample, low byte
  first (the byte order of the machines the server runs on); ValueError when the
  number of bytes is odd.
\<close>

fun frombuffer_int16 :: "byte list \<Rightarrow> int16 list option" where
  "frombuffer_int16 [] = Some []"
| "frombuffer_int16 [b] = None"
| "frombuffer_int16 (lo # hi # rest) =
     map_option ((#) (of_nat (unat lo + 256 * unat hi))) (frombuffer_int16 rest)"

text \<open>\<^verbatim>\<open>b64decode\<close> of anything but a string (or bytes, which JSON has not) is a
  TypeError.\<close>

fun decode_pcm16 :: "json \<Rightarrow> int16 list option" where
  "decode_pcm16 (JStr delta) = b64decode delta \<bind> frombuffer_int16"
| "decode_pcm16 _ = None"

text \<open>\<^verbatim>\<open>audio_int16.astype(np.float32) / 32768.0\<close>\<close>

definition normalize :: "int16 list \<Rightarrow> rat list" where
  "normalize audio_int16 = map (\<lambda>w. of_int (sint w) / 32768) audio_int16"

text \<open>
  \<^verbatim>\<open>
  def extract_audio_chunk(data):
      decoded_bytes = base64.b64decode(data["delta"])
      audio_int16 = np.frombuffer(decoded_bytes, dtype=np.int16)
      audio_data = audio_int16.astype(np.float32) / 32768.0
      return audio_data
  \<close>
\<close>

definition extract_audio_chunk :: "json \<Rightarrow> ndarray option" where
  "extract_audio_chunk data = do {
     delta \<leftarrow> py_getitem data ''delta'';
     audio_int16 \<leftarrow> decode_pcm16 delta;
     Some (Float32 (normalize audio_int16))
   }"

text \<open>
  \<^verbatim>\<open>WebsocketHelper.append_audio(delta)\<close>: the whole body is inside
  \<^verbatim>\<open>try ... except Exception\<close>, which prints and goes on. The array is stored as
  decoded, dtype int16; nothing divides it.
\<close>

definition append_audio :: "json \<Rightarrow> conn \<Rightarrow> conn" where
  "append_audio delta s =
     (case decode_pcm16 delta of
        None \<Rightarrow> s
      | Some audio_np \<Rightarrow>
          s\<lparr>audio_buffer :=
               Some ((case audio_buffer s of None \<Rightarrow> [] | Some buf \<Rightarrow> buf) @ [Int16 audio_np])\<rparr>)"

text \<open>
  \<^verbatim>\<open>np.concatenate(chunks)\<close> of one-dimensional arrays: ValueError on an empty
  list; the result is int16 when every chunk is, and float32 as soon as one is
  (an int16 becomes the float32 of the same value).
\<close>

fun is_int16 :: "ndarray \<Rightarrow> bool" where
  "is_int16 (Int16 _) = True"
| "is_int16 (Float32 _) = False"

fun int16_samples :: "ndarray \<Rightarrow> int16 list" where
  "int16_samples (Int16 ws) = ws"
| "int16_samples (Float32 _) = []"

fun float32_samples :: "ndarray \<Rightarrow> rat list" where
  "float32_samples (Int16 ws) = map (\<lambda>w. of_int (sint w)) ws"
| "float32_samples (Float32 xs) = xs"

definition np_concatenate :: "ndarray list \<Rightarrow> ndarray option" where
  "np_concatenate chunks =
     (if chunks = [] then None
      else if list_all is_int16 chunks then Some (Int16 (concat (map int16_samples chunks)))
      else Some (Float32 (concat (map float32_samples chunks))))"

text \<open>\<^verbatim>\<open>concat_audio_chunks(chunks)\<close> wraps the concatenation in an AudioInput,
  a dataclass around the array.\<close>

definition concat_audio_chunks :: "ndarray list \<Rightarrow> ndarray option" where
  "concat_audio_chunks chunks = np_concatenate chunks"

section \<open>Audio frames and the audio commit\<close>

text \<open>
  \<^verbatim>\<open>transform_data_to_events(audio_np)\<close>, with the array given by its bytes
  (\<^verbatim>\<open>audio_np.tobytes()\<close>, all the function reads of it).
\<close>

definition transform_data_to_events :: "byte list \<Rightarrow> json" where
  "transform_data_to_events audio_bytes =
     JObj [(''type'', JStr ''response.audio.delta''),
           (''delta'', JStr (b64encode audio_bytes)),
           (''output_index'', JNum 0), (''content_index'', JNum 0),
           (''item_id'', JStr []), (''response_id'', JStr []), (''event_id'', JStr [])]"

text \<open>
  The events of the speech pipeline's output stream. The data of an audio event is
  an array or \<^verbatim>\<open>None\<close>; \<^verbatim>\<open>None.tobytes()\<close> raises.
\<close>

datatype voice_stream_event =
    VoiceStreamEventAudio "byte list option"
  | VoiceStreamEventLifecycle
  | VoiceStreamEventError

fun send_audio_chunk :: "voice_stream_event \<Rightarrow> conn \<Rightarrow> conn \<times> status" where
  "send_audio_chunk (VoiceStreamEventAudio (Some audio_bytes)) s =
     (send_text (transform_data_to_events audio_bytes) s, Completed)"
| "send_audio_chunk (VoiceStreamEventAudio None) s = (s, Raised)"
| "send_audio_chunk _ s = (s, Completed)"

definition send_audio_done :: "conn \<Rightarrow> conn" where
  "send_audio_done s = send_text (JObj [(''type'', JStr ''audio.done'')]) s"

text \<open>
  The speech pipeline is the agents library's, a parameter of the model. Given the
  utterance, \<^verbatim>\<open>VoicePipeline(workflow=..., config=...).run(audio_input)\<close> raises
  (\<open>None\<close>) or returns an output whose \<^verbatim>\<open>stream()\<close> is consumed step by step.
  Between two events of the stream the pipeline may run the workflow it was given
  on the text it has recognised: that is \<open>RunWorkflow\<close>, which consumes
  \<^verbatim>\<open>Workflow.run\<close> to its end on the same session. \<open>StreamRaises\<close> is the stream
  raising instead of yielding.
\<close>

datatype stream_step =
    Yield voice_stream_event
  | RunWorkflow string
  | StreamRaises

type_synonym pipeline = "ndarray \<Rightarrow> stream_step list option"

fun stream_loop :: "runner \<Rightarrow> stream_step list \<Rightarrow> conn \<Rightarrow> conn \<times> status" where
  "stream_loop run_streamed [] s = (s, Completed)"
| "stream_loop run_streamed (Yield ev # steps) s =
     seq (send_audio_chunk ev) (stream_loop run_streamed steps) s"
| "stream_loop run_streamed (RunWorkflow text # steps) s =
     seq (Workflow_run run_streamed (\<lambda>tokens s. (s, Completed)) (JStr text))
         (stream_loop run_streamed steps) s"
| "stream_loop run_streamed (StreamRaises # steps) s = (s, Raised)"

text \<open>The \<^verbatim>\<open>except Exception\<close> branch of \<^verbatim>\<open>commit_audio\<close>.\<close>

definition clear_on_error :: "conn \<Rightarrow> conn" where
  "clear_on_error s = (case audio_buffer s of None \<Rightarrow> s | Some _ \<Rightarrow> s\<lparr>audio_buffer := Some []\<rparr>)"

text \<open>
  \<^verbatim>\<open>
  async def commit_audio(self):
      if not hasattr(self, 'audio_buffer') or not self.audio_buffer:
          return
      try:
          full_audio = np.concatenate(self.audio_buffer)
          audio_input = AudioInput(full_audio)
          workflow = Workflow(self)
          output = await VoicePipeline(workflow=workflow, config=...).run(audio_input)
          async for event in output.stream():
              await self.send_audio_chunk(event)
          self.audio_buffer = []
      except Exception as e:
          if hasattr(self, 'audio_buffer'):
              self.audio_buffer = []
  \<close>
  (prints left out). The method ends there: no statement follows the \<^verbatim>\<open>try\<close>.
\<close>

definition commit_audio :: "runner \<Rightarrow> pipeline \<Rightarrow> conn \<Rightarrow> conn" where
  "commit_audio run_streamed voice_pipeline s =
     (case audio_buffer s of
        None \<Rightarrow> s
      | Some buf \<Rightarrow>
          if buf = [] then s
          else
            (case np_concatenate buf of
               None \<Rightarrow> clear_on_error s
             | Some full_audio \<Rightarrow>
                 (let s1 = s\<lparr>pipeline_runs := pipeline_runs s @ [full_audio]\<rparr>
                  in case voice_pipeline full_audio of
                       None \<Rightarrow> clear_on_error s1
                     | Some steps \<Rightarrow>
                         (case stream_loop run_streamed steps s1 of
                            (s2, Completed) \<Rightarrow> s2\<lparr>audio_buffer := Some []\<rparr>
                          | (s2, Raised) \<Rightarrow> clear_on_error s2))))"

section \<open>The endpoint loop (websocket\_handler.py)\<close>

text \<open>
  The state of one \<^verbatim>\<open>websocket_endpoint\<close> call: the helper and the local list
  \<^verbatim>\<open>audio_buffer\<close>. One iteration of \<^verbatim>\<open>while True\<close> on a received message is
  \<open>endpoint_step\<close>; \<open>None\<close> is an exception leaving the loop, which ends the
  connection task (the outer \<^verbatim>\<open>except\<close> logs it).
\<close>

record endpoint =
  connection :: conn
  local_audio_buffer :: "ndarray list"

definition endpoint_step :: "runner \<Rightarrow> pipeline \<Rightarrow> json \<Rightarrow> endpoint \<Rightarrow> endpoint option" where
  "endpoint_step run_streamed voice_pipeline message st = do {
     sync \<leftarrow> is_sync_message message;
     if sync then do {
       inputs \<leftarrow> py_getitem message ''inputs'';
       reset_agent \<leftarrow> py_get_default message ''reset_agent'' (JBool False);
       Some (st\<lparr>connection :=
                  (if truthy reset_agent
                   then (connection st)\<lparr>history := inputs, latest_agent := job_tracking_agent\<rparr>
                   else (connection st)\<lparr>history := inputs\<rparr>)\<rparr>)
     } else do {
       new_text \<leftarrow> is_new_text_message message;
       if truthy new_text then
         (case process_inputs message (connection st) of
            (c1, None) \<Rightarrow> None
          | (c1, Some user_input) \<Rightarrow>
              (case Workflow_run run_streamed (\<lambda>new_output_tokens. stream_response new_output_tokens True)
                      user_input c1 of
                 (c2, Raised) \<Rightarrow> None
               | (c2, Completed) \<Rightarrow> Some (st\<lparr>connection := c2\<rparr>)))
       else do {
         chunk \<leftarrow> is_new_audio_chunk message;
         if chunk then do {
           audio_data \<leftarrow> extract_audio_chunk message;
           Some (st\<lparr>local_audio_buffer := local_audio_buffer st @ [audio_data]\<rparr>)
         } else do {
           complete \<leftarrow> is_audio_complete message;
           if complete then
             Some (st\<lparr>connection :=
                        commit_audio run_streamed voice_pipeline
                          ((connection st)\<lparr>audio_buffer := Some (local_audio_buffer st)\<rparr>),
                      local_audio_buffer := []\<rparr>)
           else Some st
         }
       }
     }
   }"

text \<open>The loop over the messages received, until one raises.\<close>

fun endpoint_loop :: "runner \<Rightarrow> pipeline \<Rightarrow> json list \<Rightarrow> endpoint \<Rightarrow> endpoint option" where
  "endpoint_loop run_streamed voice_pipeline [] st = Some st"
| "endpoint_loop run_streamed voice_pipeline (message # messages) st =
     endpoint_step run_streamed voice_pipeline message st
       \<bind> endpoint_loop run_streamed voice_pipeline messages"

definition new_endpoint :: endpoint where
  "new_endpoint =
     \<lparr>connection = new_helper (JArr []) job_tracking_agent, local_audio_buffer = []\<rparr>"

section \<open>WebSocketManager (websocket\_handler.py)\<close>

text \<open>
  The two tables of the manager, keyed by client identifier. A websocket is known
  by a number. \<^verbatim>\<open>connect\<close> first awaits \<^verbatim>\<open>websocket.accept()\<close>, which may raise
  (\<open>accepted = False\<close>) before either table is touched. The logging calls write
  to the log only and are left out.
\<close>

record manager =
  active_connections :: "string \<rightharpoonup> nat"
  voice_pipelines :: "string \<rightharpoonup> conn"

definition new_manager :: manager where
  "new_manager = \<lparr>active_connections = Map.empty, voice_pipelines = Map.empty\<rparr>"

definition connect :: "bool \<Rightarrow> nat \<Rightarrow> string \<Rightarrow> manager \<Rightarrow> manager \<times> conn option" where
  "connect accepted websocket client_id m =
     (if \<not> accepted then (m, None)
      else
        (let m1 = m\<lparr>active_connections := (active_connections m)(client_id \<mapsto> websocket)\<rparr>;
             helper = new_helper (JArr []) job_tracking_agent;
             m2 = m1\<lparr>voice_pipelines := (voice_pipelines m1)(client_id \<mapsto> helper)\<rparr>
         in (m2, Some helper)))"

definition disconnect :: "string \<Rightarrow> manager \<Rightarrow> manager" where
  "disconnect client_id m =
     (let m1 = (if client_id \<in> dom (active_connections m)
                then m\<lparr>active_connections := (active_connections m)(client_id := None)\<rparr> else m)
      in if client_id \<in> dom (voice_pipelines m1)
         then m1\<lparr>voice_pipelines := (voice_pipelines m1)(client_id := None)\<rparr> else m1)"

datatype manager_op = Connect bool nat string | Disconnect string

fun apply_op :: "manager_op \<Rightarrow> manager \<Rightarrow> manager" where
  "apply_op (Connect accepted websocket client_id) m = fst (connect accepted websocket client_id m)"
| "apply_op (Disconnect client_id) m = disconnect client_id m"

fun apply_ops :: "manager_op list \<Rightarrow> manager \<Rightarrow> manager" where
  "apply_ops [] m = m"
| "apply_ops (op # ops) m = apply_ops ops (apply_op op m)"

section \<open>Reading the frames sent\<close>

text \<open>A frame is tagged with a reason when its \<^verbatim>\<open>reason\<close> entry is that string.\<close>

definition tagged :: "string \<Rightarrow> json \<Rightarrow> bool" where
  "tagged reason frame = (py_getitem frame ''reason'' = Some (JStr reason))"

definition frame_type :: "json \<Rightarrow> json option" where
  "frame_type frame = py_getitem frame ''type''"

section \<open>Application lookup (services/database.py)\<close>

text \<open>
  An ObjectId is twelve bytes. It is written here as bson prints it, in 24 lowercase
  hexadecimal digits, so that two ObjectIds are equal exactly when they are written
  the same.
\<close>

type_synonym objectid = string

text \<open>
  The fields of an application document that the lookup reads. \<open>created_at\<close> is an
  instant on the time line. \<^verbatim>\<open>serialize_document\<close> re-encodes the ObjectId and
  datetime fields of the document found as strings; which document it is does not
  change, and the model returns the document.
\<close>

record application =
  app_id :: objectid
  user_id :: objectid
  company :: string
  role_title :: string
  created_at :: int

definition DEFAULT_USER_ID :: string where
  "DEFAULT_USER_ID = ''507f1f77bcf86cd799439011''"

text \<open>\<^verbatim>\<open>str.lower()\<close> on one ASCII character.\<close>

definition lower :: "char \<Rightarrow> char" where
  "lower c =
     (case map_of (zip ''ABCDEFGHIJKLMNOPQRSTUVWXYZ'' ''abcdefghijklmnopqrstuvwxyz'') c of
        None \<Rightarrow> c
      | Some l \<Rightarrow> l)"

text \<open>
  \<^verbatim>\<open>
  def get_user_id(user_id: str = None) -> str:
      if user_id and len(user_id) == 24 and all(c in '0123456789abcdef' for c in user_id.lower()):
          return user_id
      return DEFAULT_USER_ID
  \<close>
\<close>

definition get_user_id :: "string option \<Rightarrow> string" where
  "get_user_id uid =
     (case uid of
        None \<Rightarrow> DEFAULT_USER_ID
      | Some u \<Rightarrow>
          if u \<noteq> [] \<and> length u = 24 \<and> list_all (\<lambda>c. c \<in> set ''0123456789abcdef'') (map lower u)
          then u else DEFAULT_USER_ID)"

text \<open>
  \<^verbatim>\<open>ObjectId(oid)\<close> of a string: InvalidId unless the string is 24 hexadecimal
  digits, of either case; the digits name the bytes, so the case of the letters
  makes no difference to the ObjectId.
\<close>

definition ObjectId :: "string \<Rightarrow> objectid option" where
  "ObjectId oid =
     (if length oid = 24 \<and> list_all (\<lambda>c. c \<in> set ''0123456789abcdef'') (map lower oid)
      then Some (map lower oid) else None)"

text \<open>
  The filter \<^verbatim>\<open>{"$regex": application_ref, "$options": "i"}\<close> is evaluated by the
  database: the reference is a regular expression, searched for anywhere in the
  field, letters compared without case. The engine is the database's and a
  parameter of the model: given the pattern it either rejects it (\<open>None\<close>, the
  query raises) or tells of every field value whether the pattern is found in it.
\<close>

type_synonym regex_engine = "string \<Rightarrow> (string \<Rightarrow> bool) option"

text \<open>
  \<^verbatim>\<open>find_one(filter, sort=[("created_at", -1)])\<close> over the documents that pass the
  filter: one whose \<open>created_at\<close> is greatest, \<open>None\<close> when there is none. Among
  documents created at the same instant the database may return any; the model
  takes the one stored first.
\<close>

fun newest :: "application list \<Rightarrow> application option" where
  "newest [] = None"
| "newest (d # ds) =
     (case newest ds of
        None \<Rightarrow> Some d
      | Some b \<Rightarrow> if created_at b \<le> created_at d then Some d else Some b)"

text \<open>
  \<^verbatim>\<open>
  async def find_application_by_reference(application_ref, user_id=None):
      """Find application by company name or role title"""
      valid_user_id = get_user_id(user_id)
      doc = await db.applications.find_one({"user_id": ObjectId(valid_user_id),
          "company": {"$regex": application_ref, "$options": "i"}}, sort=[("created_at", -1)])
      if doc:
          return serialize_document(doc)
      doc = await db.applications.find_one({"user_id": ObjectId(valid_user_id),
          "role_title": {"$regex": application_ref, "$options": "i"}}, sort=[("created_at", -1)])
      return serialize_document(doc) if doc else None
  \<close>
  The collection is the list \<open>applications\<close>. The outer \<open>None\<close> is an exception;
  \<open>Some None\<close> is Python's \<^verbatim>\<open>None\<close>, no document.
\<close>

definition find_application_by_reference ::
    "regex_engine \<Rightarrow> application list \<Rightarrow> string \<Rightarrow> string option \<Rightarrow> application option option" where
  "find_application_by_reference regex applications application_ref uid = do {
     oid \<leftarrow> ObjectId (get_user_id uid);
     matches \<leftarrow> regex application_ref;
     Some (case newest (filter (\<lambda>d. user_id d = oid \<and> matches (company d)) applications) of
             Some doc \<Rightarrow> Some doc
           | None \<Rightarrow> newest (filter (\<lambda>d. user_id d = oid \<and> matches (role_title d)) applications))
   }"

text \<open>
  To run the lookup on a concrete reference, the engine on the patterns made of
  ordinary ASCII characters and of dots: a character of the pattern stands for
  itself in either case, a dot for any one character but a newline, and the pattern
  is searched for at every position. On these patterns \<open>dot_regex\<close> answers as a
  regular-expression engine does. It rejects every other pattern, which is not the
  database's answer: it is meant for patterns of the first kind only.
\<close>

definition metacharacters :: string where
  "metacharacters = [CHR 0x5C, CHR ''^'', CHR ''$'', CHR ''.'', CHR ''['', CHR '']'', CHR ''|'',
                     CHR ''('', CHR '')'', CHR ''?'', CHR ''*'', CHR ''+'', CHR ''{'', CHR ''}'']"

definition ordinary :: "char \<Rightarrow> bool" where
  "ordinary c = ((of_char c :: nat) < 128 \<and> c \<notin> set metacharacters)"

fun match_here :: "string \<Rightarrow> string \<Rightarrow> bool" where
  "match_here [] cs = True"
| "match_here (p # ps) [] = False"
| "match_here (p # ps) (c # cs) =
     ((if p = CHR ''.'' then c \<noteq> CHR 0x0A else lower p = lower c) \<and> match_here ps cs)"

fun match_anywhere :: "string \<Rightarrow> string \<Rightarrow> bool" where
  "match_anywhere pattern [] = match_here pattern []"
| "match_anywhere pattern (c # cs) = (match_here pattern (c # cs) \<or> match_anywhere pattern cs)"

definition dot_regex :: regex_engine where
  "dot_regex pattern =
     (if list_all (\<lambda>c. ordinary c \<or> c = CHR ''.'') pattern
      then Some (match_anywhere pattern) else None)"

text \<open>
  "Case-insensitive substring matching", in the words of the specification: the
  reference, letters lowered, occurs as a contiguous part of the field, letters
  lowered.
\<close>

fun prefix_ci :: "string \<Rightarrow> string \<Rightarrow> bool" where
  "prefix_ci [] cs = True"
| "prefix_ci (p # ps) [] = False"
| "prefix_ci (p # ps) (c # cs) = (lower p = lower c \<and> prefix_ci ps cs)"

fun substring_ci :: "string \<Rightarrow> string \<Rightarrow> bool" where
  "substring_ci ref [] = prefix_ci ref []"
| "substring_ci ref (c # cs) = (prefix_ci ref (c # cs) \<or> substring_ci ref cs)"

section \<open>The classifier and process\_inputs\<close>

text \<open>
  C4. A history.update message carries a list of items, each a JSON object. On every
  such message both classifiers return, \<^verbatim>\<open>is_sync_message\<close> is true exactly when
  the list is empty or its last item's role is not \<^verbatim>\<open>user\<close>, and
  \<^verbatim>\<open>is_new_text_message\<close> is truthy exactly when the list is non-empty and its last
  item's role is \<^verbatim>\<open>user\<close>: exactly one of the two holds.
\<close>

theorem classifier_sync_xor_new_text:
  assumes "py_getitem data ''type'' = Some (JStr ''history.update'')"
    and "py_getitem data ''inputs'' = Some (JArr inputs)"
    and "\<forall>x \<in> set inputs. \<exists>kvs. x = JObj kvs"
  shows "is_sync_message data
           = Some (inputs = [] \<or> py_get (last inputs) ''role'' \<noteq> Some (JStr ''user''))
       \<and> map_option truthy (is_new_text_message data)
           = Some (inputs \<noteq> [] \<and> py_get (last inputs) ''role'' = Some (JStr ''user''))
       \<and> map_option truthy (is_new_text_message data) = map_option Not (is_sync_message data)"
proof (cases "inputs = []")
  case True
  with assms show ?thesis by (simp add: is_sync_message_def is_new_text_message_def)
next
  case False
  then have "last inputs \<in> set inputs" by simp
  with assms(3) obtain kvs where "last inputs = JObj kvs" by blast
  with False assms show ?thesis
    by (simp add: is_sync_message_def is_new_text_message_def py_get_def)
qed

theorem classifier_sync_xor_new_text_witness:
  "is_sync_message
     (JObj [(''type'', JStr ''history.update''),
            (''inputs'', JArr [JObj [(''role'', JStr ''assistant''), (''content'', JStr ''Hello'')],
                              JObj [(''role'', JStr ''user''), (''content'', JStr ''Add Google'')]])])
     = Some False
   \<and> map_option truthy (is_new_text_message
     (JObj [(''type'', JStr ''history.update''),
            (''inputs'', JArr [JObj [(''role'', JStr ''assistant''), (''content'', JStr ''Hello'')],
                              JObj [(''role'', JStr ''user''), (''content'', JStr ''Add Google'')]])]))
     = Some True"
  using classifier_sync_xor_new_text
    [of "JObj [(''type'', JStr ''history.update''),
            (''inputs'', JArr [JObj [(''role'', JStr ''assistant''), (''content'', JStr ''Hello'')],
                              JObj [(''role'', JStr ''user''), (''content'', JStr ''Add Google'')]])]"
        "[JObj [(''role'', JStr ''assistant''), (''content'', JStr ''Hello'')],
          JObj [(''role'', JStr ''user''), (''content'', JStr ''Add Google'')]]"]
  by (simp add: py_get_def)

text \<open>
  C5. When \<^verbatim>\<open>is_new_text_message\<close> is truthy, the inputs are a non-empty list
  whose last item has role \<^verbatim>\<open>user\<close>; \<^verbatim>\<open>process_inputs\<close> then assigns the items
  before the last, in their order, to the session history and returns the last
  item's \<^verbatim>\<open>content\<close> (\<open>py_getitem\<close> of it: the KeyError of the source when the
  item has none).
\<close>

theorem process_inputs_new_text:
  assumes "is_new_text_message data = Some r" and "truthy r"
  shows "\<exists>inputs. py_getitem data ''inputs'' = Some (JArr inputs) \<and> inputs \<noteq> []
           \<and> py_get (last inputs) ''role'' = Some (JStr ''user'')
           \<and> process_inputs data s
               = (s\<lparr>history := JArr (butlast inputs)\<rparr>, py_getitem (last inputs) ''content'')"
proof -
  from assms obtain x where x: "py_getitem data ''inputs'' = Some x" "truthy x"
    and l: "py_last x \<bind> (\<lambda>l. py_get l ''role'') = Some (JStr ''user'')"
    by (auto simp: is_new_text_message_def Option.bind_eq_Some_conv split: if_splits)
  from l obtain inputs where "x = JArr inputs" "inputs \<noteq> []"
    by (cases x) (auto simp: Option.bind_eq_Some_conv py_get_def split: if_splits)
  with x l show ?thesis
    by (auto simp: process_inputs_def Option.bind_eq_Some_conv split: if_splits)
qed

theorem process_inputs_new_text_witness:
  "is_new_text_message
     (JObj [(''type'', JStr ''history.update''),
            (''inputs'', JArr [JObj [(''role'', JStr ''assistant''), (''content'', JStr ''Hello'')],
                              JObj [(''role'', JStr ''user''), (''content'', JStr ''Add Google'')]])])
     = Some (JBool True)
   \<and> truthy (JBool True)
   \<and> process_inputs
       (JObj [(''type'', JStr ''history.update''),
            (''inputs'', JArr [JObj [(''role'', JStr ''assistant''), (''content'', JStr ''Hello'')],
                              JObj [(''role'', JStr ''user''), (''content'', JStr ''Add Google'')]])])
       (new_helper (JArr [JStr ''old'']) job_tracking_agent)
     = ((new_helper (JArr [JStr ''old'']) job_tracking_agent)
          \<lparr>history := JArr [JObj [(''role'', JStr ''assistant''), (''content'', JStr ''Hello'')]]\<rparr>,
        Some (JStr ''Add Google''))"
proof -
  have c: "is_new_text_message
     (JObj [(''type'', JStr ''history.update''),
            (''inputs'', JArr [JObj [(''role'', JStr ''assistant''), (''content'', JStr ''Hello'')],
                              JObj [(''role'', JStr ''user''), (''content'', JStr ''Add Google'')]])])
     = Some (JBool True)"
    by (simp add: is_new_text_message_def py_get_def)
  have t: "truthy (JBool True)" by simp
  from process_inputs_new_text [OF c t, of "new_helper (JArr [JStr ''old'']) job_tracking_agent"] c t
  show ?thesis by auto
qed

section \<open>The turn driver\<close>

lemma seq_Completed:
  "seq f g s = (s', Completed) \<longleftrightarrow> (\<exists>s1. f s = (s1, Completed) \<and> g s1 = (s', Completed))"
  by (auto simp: seq_def split: prod.splits status.splits)

lemma stream_response_is_text: "stream_response tokens True s = (s, Completed)"
  by (simp add: stream_response_def)

lemma handle_new_item_Completed:
  assumes "handle_new_item e s = (s1, Completed)"
  shows "\<exists>new. sent s1 = sent s @ new
           \<and> filter (tagged ''response.done'') new = []
           \<and> length (filter (tagged ''response.text.delta'') new) = (if is_text_output e then 1 else 0)"
proof (cases e)
  case (RunItemStreamEvent item)
  with assms show ?thesis
    by (auto simp: send_text_def history_updated_def tagged_def Let_def split: option.splits)
next
  case (RawResponsesStreamEvent d)
  with assms show ?thesis
    by (cases d)
       (auto simp: stream_response_def send_text_def history_updated_def tagged_def Let_def
             split: option.splits)
next
  case (AgentUpdatedStreamEvent a)
  with assms show ?thesis by auto
qed

lemma event_loop_Completed:
  assumes body: "\<And>t c. body t c = (c, Completed)"
    and "event_loop body es s = (s', Completed)"
  shows "\<exists>new. sent s' = sent s @ new
           \<and> filter (tagged ''response.done'') new = []
           \<and> length (filter (tagged ''response.text.delta'') new) = length (filter is_text_output es)"
  using assms(2)
proof (induction es arbitrary: s)
  case Nil
  then show ?case by simp
next
  case (Cons e es)
  from Cons.prems obtain s1 s2 where h: "handle_new_item e s = (s1, Completed)"
    and m: "(case e of RawResponsesStreamEvent (ResponseTextDeltaEvent delta) \<Rightarrow> body delta
               | _ \<Rightarrow> (\<lambda>s. (s, Completed))) s1 = (s2, Completed)"
    and r2: "event_loop body es s2 = (s', Completed)"
    unfolding event_loop.simps seq_Completed by blast
  have "s2 = s1"
    using m body [of _ s1] by (auto split: event.splits raw_data.splits)
  with r2 have r: "event_loop body es s1 = (s', Completed)" by simp
  from handle_new_item_Completed [OF h] obtain n1 where n1: "sent s1 = sent s @ n1"
    "filter (tagged ''response.done'') n1 = []"
    "length (filter (tagged ''response.text.delta'') n1) = (if is_text_output e then 1 else 0)"
    by blast
  from Cons.IH [OF r] obtain n2 where n2: "sent s' = sent s1 @ n2"
    "filter (tagged ''response.done'') n2 = []"
    "length (filter (tagged ''response.text.delta'') n2) = length (filter is_text_output es)"
    by blast
  show ?case
    by (rule exI [of _ "n1 @ n2"]) (use n1 n2 in simp)
qed

lemma Workflow_run_Completed:
  assumes "Workflow_run run_streamed (\<lambda>t. stream_response t True) input_text s = (s', Completed)"
  shows "\<exists>h s2 n. py_append (history s) (user_item input_text) = Some h
           \<and> \<not> stream_raises (run_streamed (latest_agent s) h)
           \<and> sent s2 = sent s @ history_updated ''user.input'' h (latest_agent s) # n
           \<and> filter (tagged ''response.done'') n = []
           \<and> length (filter (tagged ''response.text.delta'') n)
               = length (filter is_text_output (stream_events (run_streamed (latest_agent s) h)))
           \<and> text_output_complete (run_streamed (latest_agent s) h) True s2 = (s', Completed)"
proof -
  from assms obtain h where h: "py_append (history s) (user_item input_text) = Some h"
    by (auto simp: Workflow_run_def show_user_input_def split: option.splits)
  define s1 where
    "s1 = send_text (history_updated ''user.input'' h (latest_agent s)) (s\<lparr>history := h\<rparr>)"
  define out where "out = run_streamed (latest_agent s) h"
  from assms h obtain s2 where
    loop: "event_loop (\<lambda>t. stream_response t True) (stream_events out) s1 = (s2, Completed)"
    and fin: "\<not> stream_raises out" "text_output_complete out True s2 = (s', Completed)"
    by (auto simp: Workflow_run_def show_user_input_def Let_def seq_Completed s1_def out_def
                   send_text_def split: if_splits)
  from event_loop_Completed [OF stream_response_is_text loop] obtain n where
    n: "sent s2 = sent s1 @ n" "filter (tagged ''response.done'') n = []"
       "length (filter (tagged ''response.text.delta'') n)
          = length (filter is_text_output (stream_events out))"
    by blast
  have "sent s1 = sent s @ [history_updated ''user.input'' h (latest_agent s)]"
    by (simp add: s1_def send_text_def)
  with n h fin show ?thesis unfolding out_def by auto
qed

text \<open>
  C3. When a run of the turn driver, consumed to its end by the endpoint loop,
  completes without raising: \<open>partial_response\<close> is empty, the history is the
  list \<^verbatim>\<open>output.to_input_list()\<close> of the runner (called on the agent and on the
  history with the user item appended), the active agent is \<^verbatim>\<open>output.last_agent\<close>,
  and among the frames the run has sent exactly one is tagged \<^verbatim>\<open>response.done\<close>:
  the history.updated frame carrying that final history and agent.
\<close>

theorem turn_finalization:
  assumes "Workflow_run run_streamed (\<lambda>t. stream_response t True) input_text s = (s', Completed)"
  shows "\<exists>h new. py_append (history s) (user_item input_text) = Some h
           \<and> partial_response s' = []
           \<and> history s' = to_input_list (run_streamed (latest_agent s) h)
           \<and> latest_agent s' = last_agent (run_streamed (latest_agent s) h)
           \<and> sent s' = sent s @ new
           \<and> filter (tagged ''response.done'') new
               = [JObj [(''type'', JStr ''history.updated''), (''inputs'', history s'),
                        (''reason'', JStr ''response.done''),
                        (''agent_name'', JStr (name (latest_agent s')))]]"
proof -
  from Workflow_run_Completed [OF assms] obtain h s2 n where
    h: "py_append (history s) (user_item input_text) = Some h"
    and s2: "sent s2 = sent s @ history_updated ''user.input'' h (latest_agent s) # n"
    and n: "filter (tagged ''response.done'') n = []"
    and fin: "text_output_complete (run_streamed (latest_agent s) h) True s2 = (s', Completed)"
    by blast
  let ?out = "run_streamed (latest_agent s) h"
  let ?final = "JObj [(''type'', JStr ''history.updated''), (''inputs'', to_input_list ?out),
                      (''reason'', JStr ''response.done''),
                      (''agent_name'', JStr (name (last_agent ?out)))]"
  let ?new = "history_updated ''user.input'' h (latest_agent s) # n @ [?final]"
  from fin have s': "s' = send_text ?final
      (s2\<lparr>partial_response := [], latest_agent := last_agent ?out, history := to_input_list ?out\<rparr>)"
    by (simp add: text_output_complete_def Let_def)
  have 1: "sent s' = sent s @ ?new"
    by (simp add: s' send_text_def s2)
  have 2: "partial_response s' = []" "history s' = to_input_list ?out"
    "latest_agent s' = last_agent ?out"
    by (simp_all add: s' send_text_def)
  have "filter (tagged ''response.done'') ?new = [?final]"
    using n by (simp add: tagged_def history_updated_def)
  with 2 have 3: "filter (tagged ''response.done'') ?new
      = [JObj [(''type'', JStr ''history.updated''), (''inputs'', history s'),
               (''reason'', JStr ''response.done''),
               (''agent_name'', JStr (name (latest_agent s')))]]"
    by simp
  from h 1 2 3 show ?thesis by blast
qed

theorem turn_finalization_witness:
  "snd (Workflow_run
         (\<lambda>a h. \<lparr>stream_events = [RawResponsesStreamEvent (ResponseTextDeltaEvent ''Done''),
                                  RunItemStreamEvent (assistant_item ''Done'')],
                 stream_raises = False, last_agent = \<lparr>name = ''Search Agent''\<rparr>,
                 to_input_list = JArr [user_item (JStr ''Add Google''), JStr ''final'']\<rparr>)
         (\<lambda>t. stream_response t True) (JStr ''Add Google'')
         (new_helper (JArr []) job_tracking_agent)) = Completed
   \<and> history (fst (Workflow_run
         (\<lambda>a h. \<lparr>stream_events = [RawResponsesStreamEvent (ResponseTextDeltaEvent ''Done''),
                                  RunItemStreamEvent (assistant_item ''Done'')],
                 stream_raises = False, last_agent = \<lparr>name = ''Search Agent''\<rparr>,
                 to_input_list = JArr [user_item (JStr ''Add Google''), JStr ''final'']\<rparr>)
         (\<lambda>t. stream_response t True) (JStr ''Add Google'')
         (new_helper (JArr []) job_tracking_agent)))
       = JArr [user_item (JStr ''Add Google''), JStr ''final'']
   \<and> partial_response (fst (Workflow_run
         (\<lambda>a h. \<lparr>stream_events = [RawResponsesStreamEvent (ResponseTextDeltaEvent ''Done''),
                                  RunItemStreamEvent (assistant_item ''Done'')],
                 stream_raises = False, last_agent = \<lparr>name = ''Search Agent''\<rparr>,
                 to_input_list = JArr [user_item (JStr ''Add Google''), JStr ''final'']\<rparr>)
         (\<lambda>t. stream_response t True) (JStr ''Add Google'')
         (new_helper (JArr []) job_tracking_agent))) = []"
proof -
  define R :: runner where
    "R = (\<lambda>a h. \<lparr>stream_events = [RawResponsesStreamEvent (ResponseTextDeltaEvent ''Done''),
                                  RunItemStreamEvent (assistant_item ''Done'')],
                 stream_raises = False, last_agent = \<lparr>name = ''Search Agent''\<rparr>,
                 to_input_list = JArr [user_item (JStr ''Add Google''), JStr ''final'']\<rparr>)"
  define s0 where "s0 = new_helper (JArr []) job_tracking_agent"
  define r where "r = Workflow_run R (\<lambda>t. stream_response t True) (JStr ''Add Google'') s0"
  have c: "snd r = Completed"
    by (simp add: r_def R_def s0_def Workflow_run_def show_user_input_def new_helper_def seq_def
                  stream_response_def send_text_def text_output_complete_def Let_def)
  then have "Workflow_run R (\<lambda>t. stream_response t True) (JStr ''Add Google'') s0
               = (fst r, Completed)"
    by (simp add: r_def prod_eq_iff)
  from turn_finalization [OF this] c show ?thesis
    unfolding r_def R_def s0_def by (auto simp: new_helper_def)
qed

text \<open>
  C10. \<^verbatim>\<open>stream_response\<close> with \<^verbatim>\<open>is_text=True\<close> returns at once: nothing is
  sent and the session is as before. So, in a turn that the endpoint loop consumes
  to its end, the frames tagged \<^verbatim>\<open>response.text.delta\<close> are as many as the text
  delta events of the runner's stream: one each, from \<^verbatim>\<open>handle_new_item\<close>, and none
  from the tokens yielded back to the loop.
\<close>

theorem text_delta_frames_once:
  "stream_response new_output_tokens True s = (s, Completed)
   \<and> (Workflow_run run_streamed (\<lambda>t. stream_response t True) input_text s = (s', Completed)
      \<longrightarrow> (\<exists>h new. py_append (history s) (user_item input_text) = Some h
             \<and> sent s' = sent s @ new
             \<and> length (filter (tagged ''response.text.delta'') new)
                 = length (filter is_text_output
                            (stream_events (run_streamed (latest_agent s) h)))))"
proof (intro conjI impI)
  show "stream_response new_output_tokens True s = (s, Completed)"
    by (rule stream_response_is_text)
next
  assume run: "Workflow_run run_streamed (\<lambda>t. stream_response t True) input_text s = (s', Completed)"
  from Workflow_run_Completed [OF run] obtain h s2 n where
    h: "py_append (history s) (user_item input_text) = Some h"
    and s2: "sent s2 = sent s @ history_updated ''user.input'' h (latest_agent s) # n"
    and n: "length (filter (tagged ''response.text.delta'') n)
              = length (filter is_text_output (stream_events (run_streamed (latest_agent s) h)))"
    and fin: "text_output_complete (run_streamed (latest_agent s) h) True s2 = (s', Completed)"
    by blast
  define final where
    "final = JObj [(''type'', JStr ''history.updated''),
                  (''inputs'', to_input_list (run_streamed (latest_agent s) h)),
                  (''reason'', JStr ''response.done''),
                  (''agent_name'', JStr (name (last_agent (run_streamed (latest_agent s) h))))]"
  from fin have "sent s' = sent s2 @ [final]"
    by (auto simp: text_output_complete_def Let_def send_text_def final_def)
  with s2 have "sent s' = sent s @ (history_updated ''user.input'' h (latest_agent s) # n @ [final])"
    by simp
  moreover have "length (filter (tagged ''response.text.delta'')
                   (history_updated ''user.input'' h (latest_agent s) # n @ [final]))
                 = length (filter is_text_output (stream_events (run_streamed (latest_agent s) h)))"
    using n by (simp add: tagged_def history_updated_def final_def)
  ultimately show "\<exists>h new. py_append (history s) (user_item input_text) = Some h
             \<and> sent s' = sent s @ new
             \<and> length (filter (tagged ''response.text.delta'') new)
                 = length (filter is_text_output
                            (stream_events (run_streamed (latest_agent s) h)))"
    using h by blast
qed

theorem text_delta_frames_once_witness:
  "snd (Workflow_run
         (\<lambda>a h. \<lparr>stream_events = [RawResponsesStreamEvent (ResponseTextDeltaEvent ''Hel''),
                                  RawResponsesStreamEvent (ResponseTextDeltaEvent ''lo'')],
                 stream_raises = False, last_agent = a,
                 to_input_list = JArr [user_item (JStr ''Hi''), assistant_item ''Hello'']\<rparr>)
         (\<lambda>t. stream_response t True) (JStr ''Hi'')
         (new_helper (JArr []) job_tracking_agent)) = Completed
   \<and> length (filter (tagged ''response.text.delta'')
        (sent (fst (Workflow_run
         (\<lambda>a h. \<lparr>stream_events = [RawResponsesStreamEvent (ResponseTextDeltaEvent ''Hel''),
                                  RawResponsesStreamEvent (ResponseTextDeltaEvent ''lo'')],
                 stream_raises = False, last_agent = a,
                 to_input_list = JArr [user_item (JStr ''Hi''), assistant_item ''Hello'']\<rparr>)
         (\<lambda>t. stream_response t True) (JStr ''Hi'')
         (new_helper (JArr []) job_tracking_agent))))) = 2"
proof -
  define R :: runner where
    "R = (\<lambda>a h. \<lparr>stream_events = [RawResponsesStreamEvent (ResponseTextDeltaEvent ''Hel''),
                                  RawResponsesStreamEvent (ResponseTextDeltaEvent ''lo'')],
                 stream_raises = False, last_agent = a,
                 to_input_list = JArr [user_item (JStr ''Hi''), assistant_item ''Hello'']\<rparr>)"
  define s0 where "s0 = new_helper (JArr []) job_tracking_agent"
  define r where "r = Workflow_run R (\<lambda>t. stream_response t True) (JStr ''Hi'') s0"
  have c: "snd r = Completed"
    by (simp add: r_def R_def s0_def Workflow_run_def show_user_input_def new_helper_def seq_def
                  stream_response_def send_text_def text_output_complete_def Let_def)
  then have run: "Workflow_run R (\<lambda>t. stream_response t True) (JStr ''Hi'') s0 = (fst r, Completed)"
    by (simp add: r_def prod_eq_iff)
  have "sent s0 = []" by (simp add: s0_def new_helper_def)
  with text_delta_frames_once [of _ s0 R "JStr ''Hi''" "fst r"] run
  have "length (filter (tagged ''response.text.delta'') (sent (fst r))) = 2"
    by (auto simp: R_def)
  with c show ?thesis unfolding r_def R_def s0_def by simp
qed

text \<open>
  C7, as the code has it. Sending an audio frame (\<^verbatim>\<open>send_audio_chunk\<close>,
  \<^verbatim>\<open>send_audio_done\<close>) changes nothing of the session but the frames sent.
  \<^verbatim>\<open>stream_response\<close>, when it sends its frame, first appends the new tokens to
  \<open>partial_response\<close>; history, active agent and audio buffer stay as they were.
\<close>

theorem emitters_session_effect:
  "(send_audio_done s)\<lparr>sent := sent s\<rparr> = s
   \<and> (fst (send_audio_chunk ev s))\<lparr>sent := sent s\<rparr> = s
   \<and> history (fst (stream_response new_tokens is_text s)) = history s
   \<and> latest_agent (fst (stream_response new_tokens is_text s)) = latest_agent s
   \<and> audio_buffer (fst (stream_response new_tokens is_text s)) = audio_buffer s
   \<and> partial_response (fst (stream_response new_tokens is_text s))
       = (if is_text then partial_response s else partial_response s @ new_tokens)"
proof -
  have "(fst (send_audio_chunk ev s))\<lparr>sent := sent s\<rparr> = s"
    by (cases "(ev, s)" rule: send_audio_chunk.cases) (auto simp: send_text_def)
  then show ?thesis
    by (auto simp: send_audio_done_def send_text_def stream_response_def Let_def
             split: option.splits)
qed

text \<open>
  C7 as stated fails: on a fresh session, \<^verbatim>\<open>stream_response("Hi")\<close> sends one
  frame and leaves \<open>partial_response\<close> changed from empty to \<^verbatim>\<open>Hi\<close>.
\<close>

theorem stream_response_mutates_partial_response:
  "length (sent (fst (stream_response ''Hi'' False (new_helper (JArr []) job_tracking_agent)))) = 1
   \<and> partial_response (new_helper (JArr []) job_tracking_agent) = []
   \<and> partial_response (fst (stream_response ''Hi'' False (new_helper (JArr []) job_tracking_agent)))
       = ''Hi''"
  by (simp add: stream_response_def new_helper_def send_text_def Let_def)

section \<open>The audio accumulator and the commit\<close>

lemma seq_keeps:
  assumes "\<And>s. obs (fst (f s)) = obs s" and "\<And>s. obs (fst (g s)) = obs s"
  shows "obs (fst (seq f g s)) = obs s"
proof (cases "f s")
  case (Pair s1 st)
  with assms(1) [of s] have "obs s1 = obs s" by simp
  with Pair assms(2) [of s1] show ?thesis
    by (cases st) (simp_all add: seq_def)
qed

lemma handle_new_item_keeps:
  "audio_buffer (fst (handle_new_item e s)) = audio_buffer s
   \<and> pipeline_runs (fst (handle_new_item e s)) = pipeline_runs s"
  by (cases "(e, s)" rule: handle_new_item.cases)
     (auto simp: stream_response_def send_text_def Let_def split: option.splits)

lemma event_loop_keeps:
  "audio_buffer (fst (event_loop (\<lambda>tokens s. (s, Completed)) es s)) = audio_buffer s
   \<and> pipeline_runs (fst (event_loop (\<lambda>tokens s. (s, Completed)) es s)) = pipeline_runs s"
proof (induction es arbitrary: s)
  case Nil
  show ?case by simp
next
  case (Cons e es)
  let ?obs = "\<lambda>s. (audio_buffer s, pipeline_runs s)"
  let ?mid = "case e of RawResponsesStreamEvent (ResponseTextDeltaEvent delta) \<Rightarrow> (\<lambda>s. (s, Completed))
                | _ \<Rightarrow> (\<lambda>s. (s, Completed))"
  have mid: "\<And>s. ?obs (fst (?mid s)) = ?obs s"
    by (auto split: event.splits raw_data.splits)
  have rest: "\<And>s. ?obs (fst (event_loop (\<lambda>tokens s. (s, Completed)) es s)) = ?obs s"
    using Cons.IH by simp
  have "?obs (fst (seq (handle_new_item e)
                    (seq ?mid (event_loop (\<lambda>tokens s. (s, Completed)) es)) s)) = ?obs s"
  proof (rule seq_keeps)
    show "?obs (fst (handle_new_item e s)) = ?obs s" for s
      by (simp add: handle_new_item_keeps)
    show "?obs (fst (seq ?mid (event_loop (\<lambda>tokens s. (s, Completed)) es) s)) = ?obs s" for s
      by (rule seq_keeps [where obs = ?obs, OF mid rest])
  qed
  then show ?case by simp
qed

lemma Workflow_run_keeps:
  "audio_buffer (fst (Workflow_run run_streamed (\<lambda>tokens s. (s, Completed)) input_text s))
     = audio_buffer s
   \<and> pipeline_runs (fst (Workflow_run run_streamed (\<lambda>tokens s. (s, Completed)) input_text s))
     = pipeline_runs s"
proof (cases "py_append (history s) (user_item input_text)")
  case None
  then show ?thesis by (simp add: Workflow_run_def show_user_input_def)
next
  case (Some h)
  let ?obs = "\<lambda>s. (audio_buffer s, pipeline_runs s)"
  define s1 where
    "s1 = send_text (history_updated ''user.input'' h (latest_agent s)) (s\<lparr>history := h\<rparr>)"
  let ?out = "run_streamed (latest_agent s) h"
  have fin: "\<And>s. ?obs (fst ((\<lambda>s2. if stream_raises ?out then (s2, Raised)
                                  else text_output_complete ?out True s2) s)) = ?obs s"
    by (simp add: text_output_complete_def send_text_def Let_def)
  have loop: "\<And>s. ?obs (fst (event_loop (\<lambda>tokens s. (s, Completed)) (stream_events ?out) s)) = ?obs s"
    using event_loop_keeps by simp
  have "?obs (fst (seq (event_loop (\<lambda>tokens s. (s, Completed)) (stream_events ?out))
                       (\<lambda>s2. if stream_raises ?out then (s2, Raised)
                              else text_output_complete ?out True s2) s1)) = ?obs s1"
    by (rule seq_keeps [where obs = ?obs, OF loop fin])
  moreover have "?obs s1 = ?obs s" by (simp add: s1_def send_text_def)
  moreover have "Workflow_run run_streamed (\<lambda>tokens s. (s, Completed)) input_text s
      = seq (event_loop (\<lambda>tokens s. (s, Completed)) (stream_events ?out))
            (\<lambda>s2. if stream_raises ?out then (s2, Raised)
                   else text_output_complete ?out True s2) s1"
    using Some by (simp add: Workflow_run_def show_user_input_def Let_def s1_def send_text_def)
  ultimately show ?thesis by simp
qed

lemma send_audio_chunk_keeps:
  "audio_buffer (fst (send_audio_chunk ev s)) = audio_buffer s
   \<and> pipeline_runs (fst (send_audio_chunk ev s)) = pipeline_runs s"
  by (cases "(ev, s)" rule: send_audio_chunk.cases) (auto simp: send_text_def)

lemma stream_loop_keeps:
  "audio_buffer (fst (stream_loop run_streamed steps s)) = audio_buffer s
   \<and> pipeline_runs (fst (stream_loop run_streamed steps s)) = pipeline_runs s"
proof (induction run_streamed steps s rule: stream_loop.induct)
  case (1 run_streamed s)
  show ?case by simp
next
  case (2 run_streamed ev steps s)
  let ?obs = "\<lambda>s. (audio_buffer s, pipeline_runs s)"
  have "?obs (fst (seq (send_audio_chunk ev) (stream_loop run_streamed steps) s)) = ?obs s"
    by (rule seq_keeps) (simp_all add: send_audio_chunk_keeps "2.IH")
  then show ?case by simp
next
  case (3 run_streamed recognized steps s)
  let ?obs = "\<lambda>s. (audio_buffer s, pipeline_runs s)"
  have "?obs (fst (seq (Workflow_run run_streamed (\<lambda>tokens s. (s, Completed)) (JStr recognized))
                       (stream_loop run_streamed steps) s)) = ?obs s"
    by (rule seq_keeps) (simp_all add: Workflow_run_keeps "3.IH")
  then show ?case by simp
next
  case (4 run_streamed steps s)
  show ?case by simp
qed

lemma float32_samples_concat:
  "chunks \<noteq> [] \<Longrightarrow> np_concatenate chunks = Some full
     \<Longrightarrow> float32_samples full = concat (map float32_samples chunks)"
proof -
  assume ne: "chunks \<noteq> []" and full: "np_concatenate chunks = Some full"
  have "list_all is_int16 cs \<Longrightarrow>
          map (\<lambda>w. of_int (sint w)) (concat (map int16_samples cs))
            = concat (map float32_samples cs)" for cs :: "ndarray list"
  proof (induction cs)
    case Nil
    show ?case by simp
  next
    case (Cons c cs)
    then show ?case by (cases c) simp_all
  qed
  with ne full show ?thesis
    by (auto simp: np_concatenate_def split: if_splits)
qed

lemma stream_loop_audio:
  "stream_loop run_streamed (map (\<lambda>b. Yield (VoiceStreamEventAudio (Some b))) frames @ rest) s
     = stream_loop run_streamed rest (s\<lparr>sent := sent s @ map transform_data_to_events frames\<rparr>)"
proof (induction frames arbitrary: s)
  case Nil
  show ?case by simp
next
  case (Cons b frames)
  have "stream_loop run_streamed
          (map (\<lambda>b. Yield (VoiceStreamEventAudio (Some b))) (b # frames) @ rest) s
        = stream_loop run_streamed
            (map (\<lambda>b. Yield (VoiceStreamEventAudio (Some b))) frames @ rest)
            (send_text (transform_data_to_events b) s)"
    by (simp add: seq_def)
  also have "\<dots> = stream_loop run_streamed rest
      ((send_text (transform_data_to_events b) s)
         \<lparr>sent := sent (send_text (transform_data_to_events b) s)
                    @ map transform_data_to_events frames\<rparr>)"
    by (rule Cons.IH)
  also have "(send_text (transform_data_to_events b) s)
         \<lparr>sent := sent (send_text (transform_data_to_events b) s)
                    @ map transform_data_to_events frames\<rparr>
      = s\<lparr>sent := sent s @ map transform_data_to_events (b # frames)\<rparr>"
    by (simp add: send_text_def)
  finally show ?case .
qed

lemma commit_audio_nonempty:
  assumes buf: "audio_buffer s = Some chunks" and ne: "chunks \<noteq> []"
  shows "\<exists>full_audio. np_concatenate chunks = Some full_audio
           \<and> commit_audio run_streamed voice_pipeline s
               = (case voice_pipeline full_audio of
                    None \<Rightarrow> s\<lparr>pipeline_runs := pipeline_runs s @ [full_audio]\<rparr>
                  | Some steps \<Rightarrow>
                      fst (stream_loop run_streamed steps
                             (s\<lparr>pipeline_runs := pipeline_runs s @ [full_audio]\<rparr>)))
                 \<lparr>audio_buffer := Some []\<rparr>
           \<and> audio_buffer (commit_audio run_streamed voice_pipeline s) = Some []
           \<and> pipeline_runs (commit_audio run_streamed voice_pipeline s)
               = pipeline_runs s @ [full_audio]"
proof -
  from ne obtain full_audio where fa: "np_concatenate chunks = Some full_audio"
    by (cases "list_all is_int16 chunks") (auto simp: np_concatenate_def)
  define s1 where "s1 = s\<lparr>pipeline_runs := pipeline_runs s @ [full_audio]\<rparr>"
  have s1: "audio_buffer s1 = Some chunks" "pipeline_runs s1 = pipeline_runs s @ [full_audio]"
    by (simp_all add: s1_def buf)
  have "commit_audio run_streamed voice_pipeline s
          = (case voice_pipeline full_audio of None \<Rightarrow> s1
             | Some steps \<Rightarrow> fst (stream_loop run_streamed steps s1))\<lparr>audio_buffer := Some []\<rparr>
        \<and> audio_buffer (commit_audio run_streamed voice_pipeline s) = Some []
        \<and> pipeline_runs (commit_audio run_streamed voice_pipeline s)
            = pipeline_runs s @ [full_audio]"
  proof (cases "voice_pipeline full_audio")
    case None
    with buf ne fa s1 show ?thesis
      by (simp add: commit_audio_def clear_on_error_def s1_def)
  next
    case (Some steps)
    obtain s2 st where sl: "stream_loop run_streamed steps s1 = (s2, st)"
      by (cases "stream_loop run_streamed steps s1")
    with stream_loop_keeps [of run_streamed steps s1] s1
    have s2: "audio_buffer s2 = Some chunks" "pipeline_runs s2 = pipeline_runs s @ [full_audio]"
      by simp_all
    from buf ne fa Some sl s2 show ?thesis
      by (cases st) (simp_all add: commit_audio_def clear_on_error_def s1_def Let_def)
  qed
  with fa show ?thesis unfolding s1_def by blast
qed

lemma commit_audio_frames:
  assumes buf: "audio_buffer s = Some chunks" and ne: "chunks \<noteq> []"
    and fa: "np_concatenate chunks = Some full_audio"
    and out: "voice_pipeline full_audio
                = Some (map (\<lambda>b. Yield (VoiceStreamEventAudio (Some b))) frames @ rest)"
    and rest: "rest = [] \<or> (\<exists>steps. rest = StreamRaises # steps)"
  shows "sent (commit_audio run_streamed voice_pipeline s)
           = sent s @ map transform_data_to_events frames"
proof -
  let ?s1 = "s\<lparr>pipeline_runs := pipeline_runs s @ [full_audio]\<rparr>"
  from commit_audio_nonempty [OF buf ne, of run_streamed voice_pipeline] fa out
  have c: "commit_audio run_streamed voice_pipeline s
      = (fst (stream_loop run_streamed
                (map (\<lambda>b. Yield (VoiceStreamEventAudio (Some b))) frames @ rest) ?s1))
          \<lparr>audio_buffer := Some []\<rparr>"
    by auto
  have "sent (fst (stream_loop run_streamed rest
                     (?s1\<lparr>sent := sent ?s1 @ map transform_data_to_events frames\<rparr>)))
          = sent s @ map transform_data_to_events frames"
    using rest by auto
  then show ?thesis
    by (simp add: c stream_loop_audio)
qed

text \<open>
  C6. Committing with no buffer or an empty one changes nothing: the speech
  pipeline is not run and no frame is sent. Committing a buffer of chunks runs the
  pipeline exactly once, on the one array whose samples are those of the chunks
  joined in their order of arrival: the session after the commit is the one left
  by the stream that the pipeline returns for that array (or, if the pipeline
  raises, the session as it was), and when that stream yields audio events and then
  ends or raises, the frames sent are their \<^verbatim>\<open>response.audio.delta\<close> frames, once
  each and in order. After a commit the buffer is empty in every case, whatever the
  pipeline and its stream did.
\<close>

theorem commit_audio_round_trip:
  "(audio_buffer s = None \<or> audio_buffer s = Some []
      \<longrightarrow> commit_audio run_streamed voice_pipeline s = s)
   \<and> (\<forall>chunks. audio_buffer s = Some chunks \<and> chunks \<noteq> [] \<longrightarrow>
        (\<exists>full_audio. concat_audio_chunks chunks = Some full_audio
           \<and> float32_samples full_audio = concat (map float32_samples chunks)
           \<and> commit_audio run_streamed voice_pipeline s
               = (case voice_pipeline full_audio of
                    None \<Rightarrow> s\<lparr>pipeline_runs := pipeline_runs s @ [full_audio]\<rparr>
                  | Some steps \<Rightarrow>
                      fst (stream_loop run_streamed steps
                             (s\<lparr>pipeline_runs := pipeline_runs s @ [full_audio]\<rparr>)))
                 \<lparr>audio_buffer := Some []\<rparr>
           \<and> (\<forall>frames rest.
                 voice_pipeline full_audio
                   = Some (map (\<lambda>b. Yield (VoiceStreamEventAudio (Some b))) frames @ rest)
                 \<and> (rest = [] \<or> (\<exists>steps. rest = StreamRaises # steps))
                 \<longrightarrow> sent (commit_audio run_streamed voice_pipeline s)
                       = sent s @ map transform_data_to_events frames)
           \<and> pipeline_runs (commit_audio run_streamed voice_pipeline s)
               = pipeline_runs s @ [full_audio])
        \<and> audio_buffer (commit_audio run_streamed voice_pipeline s) = Some [])
   \<and> (audio_buffer (commit_audio run_streamed voice_pipeline s) = None
        \<or> audio_buffer (commit_audio run_streamed voice_pipeline s) = Some [])"
proof -
  have empty: "commit_audio run_streamed voice_pipeline s = s"
    if "audio_buffer s = None \<or> audio_buffer s = Some []"
    using that by (auto simp: commit_audio_def)
  have full: "(\<exists>full_audio. concat_audio_chunks chunks = Some full_audio
           \<and> float32_samples full_audio = concat (map float32_samples chunks)
           \<and> commit_audio run_streamed voice_pipeline s
               = (case voice_pipeline full_audio of
                    None \<Rightarrow> s\<lparr>pipeline_runs := pipeline_runs s @ [full_audio]\<rparr>
                  | Some steps \<Rightarrow>
                      fst (stream_loop run_streamed steps
                             (s\<lparr>pipeline_runs := pipeline_runs s @ [full_audio]\<rparr>)))
                 \<lparr>audio_buffer := Some []\<rparr>
           \<and> (\<forall>frames rest.
                 voice_pipeline full_audio
                   = Some (map (\<lambda>b. Yield (VoiceStreamEventAudio (Some b))) frames @ rest)
                 \<and> (rest = [] \<or> (\<exists>steps. rest = StreamRaises # steps))
                 \<longrightarrow> sent (commit_audio run_streamed voice_pipeline s)
                       = sent s @ map transform_data_to_events frames)
           \<and> pipeline_runs (commit_audio run_streamed voice_pipeline s)
               = pipeline_runs s @ [full_audio])
        \<and> audio_buffer (commit_audio run_streamed voice_pipeline s) = Some []"
    if buf: "audio_buffer s = Some chunks" and ne: "chunks \<noteq> []" for chunks
  proof -
    from commit_audio_nonempty [OF buf ne, of run_streamed voice_pipeline]
    obtain full_audio where fa: "np_concatenate chunks = Some full_audio"
      and eq: "commit_audio run_streamed voice_pipeline s
               = (case voice_pipeline full_audio of
                    None \<Rightarrow> s\<lparr>pipeline_runs := pipeline_runs s @ [full_audio]\<rparr>
                  | Some steps \<Rightarrow>
                      fst (stream_loop run_streamed steps
                             (s\<lparr>pipeline_runs := pipeline_runs s @ [full_audio]\<rparr>)))
                 \<lparr>audio_buffer := Some []\<rparr>"
      and res: "audio_buffer (commit_audio run_streamed voice_pipeline s) = Some []"
        "pipeline_runs (commit_audio run_streamed voice_pipeline s)
           = pipeline_runs s @ [full_audio]"
      by blast
    have fr: "sent (commit_audio run_streamed voice_pipeline s)
                = sent s @ map transform_data_to_events frames"
      if "voice_pipeline full_audio
            = Some (map (\<lambda>b. Yield (VoiceStreamEventAudio (Some b))) frames @ rest)"
        and "rest = [] \<or> (\<exists>steps. rest = StreamRaises # steps)" for frames rest
      by (rule commit_audio_frames [OF buf ne fa], rule that(1), rule that(2))
    have c: "concat_audio_chunks chunks = Some full_audio"
      using fa by (simp add: concat_audio_chunks_def)
    from c float32_samples_concat [OF ne fa] eq fr res show ?thesis by blast
  qed
  have after: "audio_buffer (commit_audio run_streamed voice_pipeline s) = None
        \<or> audio_buffer (commit_audio run_streamed voice_pipeline s) = Some []"
  proof (cases "audio_buffer s")
    case None
    with empty show ?thesis by simp
  next
    case (Some chunks)
    show ?thesis
    proof (cases "chunks = []")
      case True
      with Some empty show ?thesis by simp
    next
      case False
      with full [OF Some] show ?thesis by simp
    qed
  qed
  from empty full after show ?thesis by blast
qed

theorem commit_audio_round_trip_witness:
  "audio_buffer ((new_helper (JArr []) job_tracking_agent)
                   \<lparr>audio_buffer := Some [Float32 [1 / 2], Float32 [- 1, 0]]\<rparr>)
     = Some [Float32 [1 / 2], Float32 [- 1, 0]]
   \<and> [Float32 [1 / 2], Float32 [- 1, 0]] \<noteq> []
   \<and> sent
       (commit_audio (\<lambda>a h. \<lparr>stream_events = [], stream_raises = False, last_agent = a,
                              to_input_list = h\<rparr>)
          (\<lambda>audio. if audio = Float32 [1 / 2, - 1, 0]
                    then Some [Yield (VoiceStreamEventAudio (Some [1, 0])),
                               Yield (VoiceStreamEventAudio (Some [2, 0])), StreamRaises]
                    else None)
          ((new_helper (JArr []) job_tracking_agent)
             \<lparr>audio_buffer := Some [Float32 [1 / 2], Float32 [- 1, 0]]\<rparr>))
     = [transform_data_to_events [1, 0], transform_data_to_events [2, 0]]
   \<and> pipeline_runs
       (commit_audio (\<lambda>a h. \<lparr>stream_events = [], stream_raises = False, last_agent = a,
                              to_input_list = h\<rparr>)
          (\<lambda>audio. if audio = Float32 [1 / 2, - 1, 0]
                    then Some [Yield (VoiceStreamEventAudio (Some [1, 0])),
                               Yield (VoiceStreamEventAudio (Some [2, 0])), StreamRaises]
                    else None)
          ((new_helper (JArr []) job_tracking_agent)
             \<lparr>audio_buffer := Some [Float32 [1 / 2], Float32 [- 1, 0]]\<rparr>))
     = [Float32 [1 / 2, - 1, 0]]
   \<and> audio_buffer
       (commit_audio (\<lambda>a h. \<lparr>stream_events = [], stream_raises = False, last_agent = a,
                              to_input_list = h\<rparr>)
          (\<lambda>audio. if audio = Float32 [1 / 2, - 1, 0]
                    then Some [Yield (VoiceStreamEventAudio (Some [1, 0])),
                               Yield (VoiceStreamEventAudio (Some [2, 0])), StreamRaises]
                    else None)
          ((new_helper (JArr []) job_tracking_agent)
             \<lparr>audio_buffer := Some [Float32 [1 / 2], Float32 [- 1, 0]]\<rparr>))
     = Some []"
proof -
  let ?s = "(new_helper (JArr []) job_tracking_agent)
              \<lparr>audio_buffer := Some [Float32 [1 / 2], Float32 [- 1, 0]]\<rparr>"
  let ?R = "\<lambda>a h. \<lparr>stream_events = [], stream_raises = False, last_agent = a,
                    to_input_list = h\<rparr>"
  let ?P = "\<lambda>audio. if audio = Float32 [1 / 2, - 1, 0]
                    then Some [Yield (VoiceStreamEventAudio (Some [1, 0])),
                               Yield (VoiceStreamEventAudio (Some [2, 0])), StreamRaises]
                    else None"
  have buf: "audio_buffer ?s = Some [Float32 [1 / 2], Float32 [- 1, 0]]
             \<and> [Float32 [1 / 2], Float32 [- 1, 0]] \<noteq> []"
    by simp
  with commit_audio_round_trip [of ?s ?R ?P]
  obtain full_audio where
    c: "concat_audio_chunks [Float32 [1 / 2], Float32 [- 1, 0]] = Some full_audio"
    and fr: "\<forall>frames rest.
               ?P full_audio = Some (map (\<lambda>b. Yield (VoiceStreamEventAudio (Some b))) frames @ rest)
               \<and> (rest = [] \<or> (\<exists>steps. rest = StreamRaises # steps))
               \<longrightarrow> sent (commit_audio ?R ?P ?s) = sent ?s @ map transform_data_to_events frames"
    and runs: "pipeline_runs (commit_audio ?R ?P ?s) = pipeline_runs ?s @ [full_audio]"
    and after: "audio_buffer (commit_audio ?R ?P ?s) = Some []"
    by blast
  from c have full: "full_audio = Float32 [1 / 2, - 1, 0]"
    by (simp add: concat_audio_chunks_def np_concatenate_def)
  have "?P full_audio
          = Some (map (\<lambda>b. Yield (VoiceStreamEventAudio (Some b))) [[1, 0], [2, 0]] @ [StreamRaises])
        \<and> ([StreamRaises] = [] \<or> (\<exists>steps. [StreamRaises] = StreamRaises # steps))"
    by (simp add: full)
  with fr have "sent (commit_audio ?R ?P ?s)
                  = sent ?s @ map transform_data_to_events [[1, 0], [2, 0]]"
    by blast
  then have "sent (commit_audio ?R ?P ?s)
               = [transform_data_to_events [1, 0], transform_data_to_events [2, 0]]"
    by (simp add: new_helper_def)
  moreover from runs full have "pipeline_runs (commit_audio ?R ?P ?s) = [Float32 [1 / 2, - 1, 0]]"
    by (simp add: new_helper_def)
  ultimately show ?thesis using buf after by blast
qed

text \<open>
  The same round trip through the endpoint loop: append messages whose chunks
  decode, then a commit message, from an empty local buffer. The pipeline runs once,
  on the decoded chunks joined in the order received; the audio events of its stream
  go out as frames; both buffers end empty.
\<close>

lemma endpoint_step_append:
  assumes "py_getitem message ''type'' = Some (JStr ''input_audio_buffer.append'')"
    and "extract_audio_chunk message = Some audio_data"
  shows "endpoint_step run_streamed voice_pipeline message st
           = Some (st\<lparr>local_audio_buffer := local_audio_buffer st @ [audio_data]\<rparr>)"
  using assms
  by (simp add: endpoint_step_def is_sync_message_def is_new_text_message_def
                is_new_audio_chunk_def)

lemma endpoint_step_commit:
  assumes "py_getitem message ''type'' = Some (JStr ''input_audio_buffer.commit'')"
  shows "endpoint_step run_streamed voice_pipeline message st
           = Some (st\<lparr>connection :=
                        commit_audio run_streamed voice_pipeline
                          ((connection st)\<lparr>audio_buffer := Some (local_audio_buffer st)\<rparr>),
                      local_audio_buffer := []\<rparr>)"
  using assms
  by (simp add: endpoint_step_def is_sync_message_def is_new_text_message_def
                is_new_audio_chunk_def is_audio_complete_def)

lemma endpoint_loop_appends:
  assumes "\<forall>m \<in> set messages. py_getitem m ''type'' = Some (JStr ''input_audio_buffer.append'')"
    and "map extract_audio_chunk messages = map Some chunks"
  shows "endpoint_loop run_streamed voice_pipeline (messages @ rest) st
           = endpoint_loop run_streamed voice_pipeline rest
               (st\<lparr>local_audio_buffer := local_audio_buffer st @ chunks\<rparr>)"
  using assms
proof (induction messages arbitrary: chunks st)
  case Nil
  then show ?case by simp
next
  case (Cons m messages)
  from Cons.prems(2) obtain c cs where chunks: "chunks = c # cs"
    and c: "extract_audio_chunk m = Some c"
    and cs: "map extract_audio_chunk messages = map Some cs"
    by (cases chunks) auto
  from Cons.prems(1) have m: "py_getitem m ''type'' = Some (JStr ''input_audio_buffer.append'')"
    and ms: "\<forall>m \<in> set messages. py_getitem m ''type'' = Some (JStr ''input_audio_buffer.append'')"
    by simp_all
  show ?case
    by (simp add: endpoint_step_append [OF m c] Cons.IH [OF ms cs] chunks)
qed

lemma endpoint_audio_round_trip:
  assumes "\<forall>m \<in> set messages. py_getitem m ''type'' = Some (JStr ''input_audio_buffer.append'')"
    and "map extract_audio_chunk messages = map (\<lambda>xs. Some (Float32 xs)) decoded"
    and "messages \<noteq> []"
    and "py_getitem commit ''type'' = Some (JStr ''input_audio_buffer.commit'')"
    and "local_audio_buffer st = []"
    and "voice_pipeline (Float32 (concat decoded))
           = Some (map (\<lambda>b. Yield (VoiceStreamEventAudio (Some b))) frames @ rest)"
    and "rest = [] \<or> (\<exists>steps. rest = StreamRaises # steps)"
  shows "\<exists>st'. endpoint_loop run_streamed voice_pipeline (messages @ [commit]) st = Some st'
           \<and> sent (connection st') = sent (connection st) @ map transform_data_to_events frames
           \<and> pipeline_runs (connection st')
               = pipeline_runs (connection st) @ [Float32 (concat decoded)]
           \<and> audio_buffer (connection st') = Some []
           \<and> local_audio_buffer st' = []"
proof -
  let ?chunks = "map Float32 decoded"
  from assms(2) have dec: "map extract_audio_chunk messages = map Some ?chunks"
    by (simp add: comp_def)
  from assms(2,3) have ne: "?chunks \<noteq> []"
    by (cases decoded) auto
  let ?c = "(connection st)\<lparr>audio_buffer := Some ?chunks\<rparr>"
  have cat: "np_concatenate ?chunks = Some (Float32 (concat decoded))"
  proof -
    have "\<not> list_all is_int16 ?chunks" using ne by (cases decoded) auto
    moreover have "concat (map float32_samples ?chunks) = concat decoded"
      by (induction decoded) simp_all
    ultimately show ?thesis using ne by (simp add: np_concatenate_def)
  qed
  have buf: "audio_buffer ?c = Some ?chunks" by simp
  from commit_audio_nonempty [OF buf ne, of run_streamed voice_pipeline]
  obtain full_audio where f: "np_concatenate ?chunks = Some full_audio"
    and r1: "audio_buffer (commit_audio run_streamed voice_pipeline ?c) = Some []"
    and r2: "pipeline_runs (commit_audio run_streamed voice_pipeline ?c)
               = pipeline_runs ?c @ [full_audio]"
    by blast
  from f cat have "full_audio = Float32 (concat decoded)" by simp
  with r1 r2 have res: "audio_buffer (commit_audio run_streamed voice_pipeline ?c) = Some []"
    "pipeline_runs (commit_audio run_streamed voice_pipeline ?c)
       = pipeline_runs (connection st) @ [Float32 (concat decoded)]"
    by simp_all
  have "sent (commit_audio run_streamed voice_pipeline ?c)
          = sent ?c @ map transform_data_to_events frames"
    by (rule commit_audio_frames [OF buf ne cat], rule assms(6), rule assms(7))
  then have fr: "sent (commit_audio run_streamed voice_pipeline ?c)
              = sent (connection st) @ map transform_data_to_events frames"
    by simp
  have "endpoint_loop run_streamed voice_pipeline (messages @ [commit]) st
          = Some (st\<lparr>connection := commit_audio run_streamed voice_pipeline ?c,
                      local_audio_buffer := []\<rparr>)"
    by (simp add: endpoint_loop_appends [OF assms(1) dec] endpoint_step_commit [OF assms(4)]
                  assms(5))
  with res fr show ?thesis by simp
qed

text \<open>
  What \<^verbatim>\<open>extract_audio_chunk\<close> returns, when it returns: the int16 samples of
  the chunk, each divided by 32768, so each at least -1 and less than 1.
\<close>

lemma extract_audio_chunk_normalized:
  assumes "extract_audio_chunk data = Some audio_data"
  shows "\<exists>delta audio_int16. py_getitem data ''delta'' = Some delta
           \<and> decode_pcm16 delta = Some audio_int16
           \<and> audio_data = Float32 (map (\<lambda>w. of_int (sint w) / 32768) audio_int16)
           \<and> (\<forall>x \<in> set (float32_samples audio_data). - 1 \<le> x \<and> x < 1)"
proof -
  have bound: "- 32768 \<le> (signed w :: rat) \<and> (signed w :: rat) < 32768" for w :: int16
  proof -
    have "- 32768 \<le> sint w" "sint w < 32768"
      using sint_ge [of w] sint_lt [of w] by simp_all
    then have "(- 32768 :: rat) \<le> of_int (sint w)" "(of_int (sint w) :: rat) < 32768"
      by linarith+
    then show ?thesis by simp
  qed
  from assms show ?thesis
    by (auto simp: extract_audio_chunk_def normalize_def Option.bind_eq_Some_conv bound)
qed

text \<open>
  C2 on the code. The endpoint loop, the path that runs, decodes with
  \<^verbatim>\<open>extract_audio_chunk\<close>: the chunk \<^verbatim>\<open>AEA=\<close> (bytes 00 40, the sample 16384)
  is buffered as 0.5. But it calls it outside any \<^verbatim>\<open>try\<close>: on the chunk
  \<^verbatim>\<open>AEA\<close>, which base64 cannot decode, the exception leaves the loop, and the
  connection ends with the audio buffered so far. \<^verbatim>\<open>WebsocketHelper.append_audio\<close>
  does the opposite on both counts: it catches the failure and leaves the session
  as it was, but it buffers the int16 sample 16384 undivided.
\<close>

theorem audio_append_on_both_paths:
  "endpoint_step (\<lambda>a h. \<lparr>stream_events = [], stream_raises = False, last_agent = a,
                         to_input_list = h\<rparr>)
     (\<lambda>audio. Some [])
     (JObj [(''type'', JStr ''input_audio_buffer.append''), (''delta'', JStr ''AEA='')])
     new_endpoint
     = Some (new_endpoint\<lparr>local_audio_buffer := [Float32 [1 / 2]]\<rparr>)
   \<and> endpoint_step (\<lambda>a h. \<lparr>stream_events = [], stream_raises = False, last_agent = a,
                           to_input_list = h\<rparr>)
       (\<lambda>audio. Some [])
       (JObj [(''type'', JStr ''input_audio_buffer.append''), (''delta'', JStr ''AEA'')])
       (new_endpoint\<lparr>local_audio_buffer := [Float32 [1 / 2]]\<rparr>)
     = None
   \<and> endpoint_loop (\<lambda>a h. \<lparr>stream_events = [], stream_raises = False, last_agent = a,
                           to_input_list = h\<rparr>)
       (\<lambda>audio. Some [])
       [JObj [(''type'', JStr ''input_audio_buffer.append''), (''delta'', JStr ''AEA='')],
        JObj [(''type'', JStr ''input_audio_buffer.append''), (''delta'', JStr ''AEA'')],
        JObj [(''type'', JStr ''input_audio_buffer.commit'')]]
       new_endpoint
     = None
   \<and> append_audio (JStr ''AEA'') (new_helper (JArr []) job_tracking_agent)
     = new_helper (JArr []) job_tracking_agent
   \<and> audio_buffer (append_audio (JStr ''AEA='') (new_helper (JArr []) job_tracking_agent))
     = Some [Int16 [16384]]"
proof -
  have ok: "extract_audio_chunk
              (JObj [(''type'', JStr ''input_audio_buffer.append''), (''delta'', JStr ''AEA='')])
            = Some (Float32 [1 / 2])"
    by (simp add: extract_audio_chunk_def normalize_def b64decode_def b64_alphabet_def)
  have bad: "extract_audio_chunk
               (JObj [(''type'', JStr ''input_audio_buffer.append''), (''delta'', JStr ''AEA'')])
             = None"
    by (simp add: extract_audio_chunk_def b64decode_def b64_alphabet_def)
  have a1: "append_audio (JStr ''AEA'') (new_helper (JArr []) job_tracking_agent)
              = new_helper (JArr []) job_tracking_agent"
    by (simp add: append_audio_def b64decode_def b64_alphabet_def)
  have a2: "audio_buffer (append_audio (JStr ''AEA='') (new_helper (JArr []) job_tracking_agent))
              = Some [Int16 [16384]]"
    by (simp add: append_audio_def b64decode_def b64_alphabet_def new_helper_def)
  have e1: "endpoint_step (\<lambda>a h. \<lparr>stream_events = [], stream_raises = False, last_agent = a,
                         to_input_list = h\<rparr>)
     (\<lambda>audio. Some [])
     (JObj [(''type'', JStr ''input_audio_buffer.append''), (''delta'', JStr ''AEA='')])
     new_endpoint
     = Some (new_endpoint\<lparr>local_audio_buffer := [Float32 [1 / 2]]\<rparr>)"
    by (simp add: endpoint_step_def is_sync_message_def is_new_text_message_def
                  is_new_audio_chunk_def ok new_endpoint_def)
  have e2: "endpoint_step (\<lambda>a h. \<lparr>stream_events = [], stream_raises = False, last_agent = a,
                           to_input_list = h\<rparr>)
       (\<lambda>audio. Some [])
       (JObj [(''type'', JStr ''input_audio_buffer.append''), (''delta'', JStr ''AEA'')])
       (new_endpoint\<lparr>local_audio_buffer := [Float32 [1 / 2]]\<rparr>)
     = None"
    by (simp add: endpoint_step_def is_sync_message_def is_new_text_message_def
                  is_new_audio_chunk_def bad)
  from e1 e2 a1 a2 show ?thesis by simp
qed

text \<open>
  C1 on the code: a buffer of one chunk, a pipeline whose stream yields one audio
  event. \<^verbatim>\<open>commit_audio\<close> sends the one \<^verbatim>\<open>response.audio.delta\<close> frame and
  nothing after it, whether the stream then ends or raises: no \<^verbatim>\<open>audio.done\<close>
  frame is sent.
\<close>

theorem commit_audio_sends_no_audio_done:
  "map frame_type
     (sent (commit_audio (\<lambda>a h. \<lparr>stream_events = [], stream_raises = False, last_agent = a,
                                  to_input_list = h\<rparr>)
              (\<lambda>audio. Some [Yield (VoiceStreamEventAudio (Some [1, 0]))])
              ((new_helper (JArr []) job_tracking_agent)\<lparr>audio_buffer := Some [Int16 [1]]\<rparr>)))
     = [Some (JStr ''response.audio.delta'')]
   \<and> map frame_type
     (sent (commit_audio (\<lambda>a h. \<lparr>stream_events = [], stream_raises = False, last_agent = a,
                                  to_input_list = h\<rparr>)
              (\<lambda>audio. Some [Yield (VoiceStreamEventAudio (Some [1, 0])), StreamRaises])
              ((new_helper (JArr []) job_tracking_agent)\<lparr>audio_buffer := Some [Int16 [1]]\<rparr>)))
     = [Some (JStr ''response.audio.delta'')]
   \<and> frame_type (last (sent (send_audio_done (new_helper (JArr []) job_tracking_agent))))
     = Some (JStr ''audio.done'')"
  by (simp add: commit_audio_def np_concatenate_def seq_def send_text_def send_audio_done_def
                transform_data_to_events_def frame_type_def clear_on_error_def new_helper_def)

section \<open>The connection tables\<close>

lemma apply_op_consistent:
  assumes "dom (active_connections m) = dom (voice_pipelines m)"
  shows "dom (active_connections (apply_op op m)) = dom (voice_pipelines (apply_op op m))"
proof (cases op)
  case (Connect accepted websocket client_id)
  with assms show ?thesis by (simp add: connect_def Let_def)
next
  case (Disconnect client_id)
  with assms show ?thesis by (auto simp: disconnect_def Let_def)
qed

lemma apply_ops_consistent:
  "dom (active_connections m) = dom (voice_pipelines m)
     \<Longrightarrow> dom (active_connections (apply_ops ops m)) = dom (voice_pipelines (apply_ops ops m))"
  by (induction ops arbitrary: m) (simp_all add: apply_op_consistent)

text \<open>
  C9. After any sequence of \<^verbatim>\<open>connect\<close> and \<^verbatim>\<open>disconnect\<close> calls on a new
  manager, whatever the clients and whether or not each handshake was accepted, the
  client identifiers of \<^verbatim>\<open>active_connections\<close> are those of
  \<^verbatim>\<open>voice_pipelines\<close>.
\<close>

theorem manager_tables_consistent:
  "dom (active_connections (apply_ops ops new_manager))
     = dom (voice_pipelines (apply_ops ops new_manager))"
  by (rule apply_ops_consistent) (simp add: new_manager_def)

section \<open>Lookup by reference\<close>

lemma prefix_ci_iff: "prefix_ci p s \<longleftrightarrow> (\<exists>suf. map lower s = map lower p @ suf)"
  by (induction p s rule: prefix_ci.induct) auto

lemma substring_ci_iff:
  "substring_ci p s \<longleftrightarrow> (\<exists>pre suf. map lower s = pre @ map lower p @ suf)"
proof (induction s)
  case Nil
  then show ?case by (cases p) auto
next
  case (Cons c cs)
  show ?case
  proof
    assume "substring_ci p (c # cs)"
    then consider "prefix_ci p (c # cs)" | "substring_ci p cs" by auto
    then show "\<exists>pre suf. map lower (c # cs) = pre @ map lower p @ suf"
    proof cases
      case 1
      then obtain suf where "map lower (c # cs) = map lower p @ suf"
        unfolding prefix_ci_iff by blast
      then have "map lower (c # cs) = [] @ map lower p @ suf" by simp
      then show ?thesis by blast
    next
      case 2
      with Cons.IH obtain pre suf where "map lower cs = pre @ map lower p @ suf" by blast
      then have "map lower (c # cs) = (lower c # pre) @ map lower p @ suf" by simp
      then show ?thesis by blast
    qed
  next
    assume "\<exists>pre suf. map lower (c # cs) = pre @ map lower p @ suf"
    then obtain pre suf where e: "map lower (c # cs) = pre @ map lower p @ suf" by blast
    show "substring_ci p (c # cs)"
    proof (cases pre)
      case Nil
      with e have "prefix_ci p (c # cs)" unfolding prefix_ci_iff by auto
      then show ?thesis by simp
    next
      case (Cons a pre')
      with e have "map lower cs = pre' @ map lower p @ suf" by simp
      with Cons.IH have "substring_ci p cs" by blast
      then show ?thesis by simp
    qed
  qed
qed

lemma match_here_ordinary:
  "list_all ordinary p \<Longrightarrow> match_here p s = prefix_ci p s"
  by (induction p s rule: match_here.induct) (auto simp: ordinary_def metacharacters_def)

lemma match_anywhere_ordinary:
  "list_all ordinary p \<Longrightarrow> match_anywhere p s = substring_ci p s"
  by (induction s) (auto simp: match_here_ordinary)

lemma dot_regex_ordinary:
  "list_all ordinary p \<Longrightarrow> dot_regex p = Some (substring_ci p)"
proof -
  assume o: "list_all ordinary p"
  then have "list_all (\<lambda>c. ordinary c \<or> c = CHR ''.'') p"
    by (induction p) auto
  moreover have "match_anywhere p = substring_ci p"
    using match_anywhere_ordinary [OF o] by (intro ext)
  ultimately show ?thesis by (simp add: dot_regex_def)
qed

lemma newest_None: "newest ds = None \<longleftrightarrow> ds = []"
  by (induction ds) (auto split: option.splits)

lemma newest_Some:
  "newest ds = Some b \<Longrightarrow> b \<in> set ds \<and> (\<forall>d \<in> set ds. created_at d \<le> created_at b)"
proof (induction ds arbitrary: b)
  case Nil
  then show ?case by simp
next
  case (Cons d ds)
  show ?case
  proof (cases "newest ds")
    case None
    with Cons.prems show ?thesis by (simp add: newest_None)
  next
    case (Some b')
    with Cons.IH have "b' \<in> set ds" "\<forall>d \<in> set ds. created_at d \<le> created_at b'" by simp_all
    with Cons.prems Some show ?thesis by (auto split: if_splits)
  qed
qed

lemma newest_nonempty:
  assumes "ds \<noteq> []"
  shows "\<exists>d \<in> set ds. newest ds = Some d \<and> (\<forall>d' \<in> set ds. created_at d' \<le> created_at d)"
proof -
  from assms obtain b where "newest ds = Some b"
    using newest_None [of ds] by (cases "newest ds") auto
  with newest_Some [of ds b] show ?thesis by blast
qed

lemma ObjectId_DEFAULT_USER_ID: "ObjectId DEFAULT_USER_ID = Some DEFAULT_USER_ID"
  by code_simp

lemma ObjectId_get_user_id: "\<exists>oid. ObjectId (get_user_id uid) = Some oid"
proof (cases uid)
  case None
  then show ?thesis by (simp add: get_user_id_def ObjectId_DEFAULT_USER_ID)
next
  case (Some u)
  show ?thesis
  proof (cases "u \<noteq> [] \<and> length u = 24
                  \<and> list_all (\<lambda>c. c \<in> set ''0123456789abcdef'') (map lower u)")
    case True
    with Some have "get_user_id uid = u" by (simp add: get_user_id_def)
    with True show ?thesis by (simp add: ObjectId_def)
  next
    case False
    with Some have "get_user_id uid = DEFAULT_USER_ID" by (auto simp: get_user_id_def)
    then show ?thesis by (simp add: ObjectId_DEFAULT_USER_ID)
  qed
qed

text \<open>
  What the lookup does with the engine's answer: among the user's applications, the
  company name is tried first and the role title only when no company name
  matches; each time a matching application with the greatest \<open>created_at\<close> is
  returned, and \<^verbatim>\<open>None\<close> when nothing matches.
\<close>

lemma find_application_by_reference_newest:
  assumes "regex application_ref = Some matches"
  shows "\<exists>oid result. ObjectId (get_user_id uid) = Some oid
     \<and> find_application_by_reference regex applications application_ref uid = Some result
     \<and> (let mine = filter (\<lambda>d. user_id d = oid) applications;
             by_company = filter (\<lambda>d. matches (company d)) mine;
             by_role = filter (\<lambda>d. matches (role_title d)) mine
         in (by_company \<noteq> [] \<longrightarrow>
               (\<exists>d \<in> set by_company. result = Some d
                   \<and> (\<forall>d' \<in> set by_company. created_at d' \<le> created_at d)))
          \<and> (by_company = [] \<and> by_role \<noteq> [] \<longrightarrow>
               (\<exists>d \<in> set by_role. result = Some d
                   \<and> (\<forall>d' \<in> set by_role. created_at d' \<le> created_at d)))
          \<and> (by_company = [] \<and> by_role = [] \<longrightarrow> result = None))"
proof -
  from ObjectId_get_user_id obtain oid where oid: "ObjectId (get_user_id uid) = Some oid"
    by blast
  let ?mine = "filter (\<lambda>d. user_id d = oid) applications"
  let ?by_company = "filter (\<lambda>d. matches (company d)) ?mine"
  let ?by_role = "filter (\<lambda>d. matches (role_title d)) ?mine"
  have c: "filter (\<lambda>d. user_id d = oid \<and> matches (company d)) applications = ?by_company"
    by (simp add: conj_commute)
  have r: "filter (\<lambda>d. user_id d = oid \<and> matches (role_title d)) applications = ?by_role"
    by (simp add: conj_commute)
  have "find_application_by_reference regex applications application_ref uid
          = Some (case newest (filter (\<lambda>d. user_id d = oid \<and> matches (company d)) applications) of
                    Some doc \<Rightarrow> Some doc
                  | None \<Rightarrow>
                      newest (filter (\<lambda>d. user_id d = oid \<and> matches (role_title d)) applications))"
    using oid assms by (simp add: find_application_by_reference_def)
  then have f: "find_application_by_reference regex applications application_ref uid
             = Some (case newest ?by_company of Some doc \<Rightarrow> Some doc | None \<Rightarrow> newest ?by_role)"
    unfolding c r .
  let ?result = "case newest ?by_company of Some doc \<Rightarrow> Some doc | None \<Rightarrow> newest ?by_role"
  have p: "(let mine = filter (\<lambda>d. user_id d = oid) applications;
             by_company = filter (\<lambda>d. matches (company d)) mine;
             by_role = filter (\<lambda>d. matches (role_title d)) mine
         in (by_company \<noteq> [] \<longrightarrow>
               (\<exists>d \<in> set by_company. ?result = Some d
                   \<and> (\<forall>d' \<in> set by_company. created_at d' \<le> created_at d)))
          \<and> (by_company = [] \<and> by_role \<noteq> [] \<longrightarrow>
               (\<exists>d \<in> set by_role. ?result = Some d
                   \<and> (\<forall>d' \<in> set by_role. created_at d' \<le> created_at d)))
          \<and> (by_company = [] \<and> by_role = [] \<longrightarrow> ?result = None))"
  proof (cases "?by_company = []")
    case True
    note co = this
    show ?thesis
    proof (cases "?by_role = []")
      case True
      with co show ?thesis by (simp add: Let_def)
    next
      case False
      from newest_nonempty [OF False] co False show ?thesis
        by (auto simp: Let_def)
    qed
  next
    case False
    from newest_nonempty [OF False] False show ?thesis
      by (auto simp: Let_def)
  qed
  show ?thesis
    by (intro exI [of _ oid] exI [of _ ?result] conjI oid f) (rule p)
qed

text \<open>
  C8 on the code: one application of the default user, at the company
  \<^verbatim>\<open>Google\<close>, and the reference \<^verbatim>\<open>g..gle\<close>. The reference is not a substring of
  the company name in any letter case, and yet the lookup returns the application:
  the reference goes to the database unescaped, as a regular expression, in which
  a dot matches any character.
\<close>

theorem reference_is_a_regex:
  "find_application_by_reference dot_regex
     [\<lparr>app_id = ''65f000000000000000000001'', user_id = DEFAULT_USER_ID, company = ''Google'',
        role_title = ''Software Engineer'', created_at = 5\<rparr>]
     ''g..gle'' None
     = Some (Some \<lparr>app_id = ''65f000000000000000000001'', user_id = DEFAULT_USER_ID,
                    company = ''Google'', role_title = ''Software Engineer'', created_at = 5\<rparr>)
   \<and> \<not> substring_ci ''g..gle'' ''Google''
   \<and> \<not> substring_ci ''g..gle'' ''Software Engineer''"
  by code_simp


end
